theory Spec2Isabelle
  imports Main
begin

section \<open>JavaScript strings and numbers\<close>

text \<open>
  The validator of \<^verbatim>\<open>packages/backend/src/security/imageUrlValidator.ts\<close> works on
  JavaScript strings. A string is modelled as a \<^typ>\<open>string\<close>, one \<^typ>\<open>char\<close> per
  UTF-16 code unit; the model covers the code units below 256 (Latin-1), which is
  where every character tested by the validator lives.
\<close>

definition code_unit :: "char \<Rightarrow> nat" where
  "code_unit c = of_char c"

text \<open>\<^verbatim>\<open>\d\<close> and the digits read by \<^verbatim>\<open>parseInt(p, 10)\<close>: the ASCII digits.\<close>

definition is_digit :: "char \<Rightarrow> bool" where
  "is_digit c = (48 \<le> code_unit c \<and> code_unit c \<le> 57)"

definition digit_val :: "char \<Rightarrow> nat" where
  "digit_val c = code_unit c - 48"

text \<open>The character class \<^verbatim>\<open>[0-9a-fA-F]\<close>.\<close>

definition is_hex :: "char \<Rightarrow> bool" where
  "is_hex c = (is_digit c \<or> (97 \<le> code_unit c \<and> code_unit c \<le> 102)
                \<or> (65 \<le> code_unit c \<and> code_unit c \<le> 70))"

text \<open>
  White space as \<^verbatim>\<open>String.prototype.trim\<close> and \<^verbatim>\<open>parseInt\<close> skip it: TAB, LF, VT,
  FF, CR, SPACE and NO-BREAK SPACE (the white space and line terminators below 256).
\<close>

definition is_js_space :: "char \<Rightarrow> bool" where
  "is_js_space c = (code_unit c = 9 \<or> code_unit c = 10 \<or> code_unit c = 11 \<or> code_unit c = 12
                    \<or> code_unit c = 13 \<or> code_unit c = 32 \<or> code_unit c = 160)"

definition trim :: "string \<Rightarrow> string" where
  "trim s = rev (dropWhile is_js_space (rev (dropWhile is_js_space s)))"

text \<open>
  \<^verbatim>\<open>String.prototype.toLowerCase\<close> on one code unit: \<^verbatim>\<open>A\<close>..\<^verbatim>\<open>Z\<close> and the
  Latin-1 capitals U+00C0..U+00DE (without the multiplication sign U+00D7) move up by 32.
\<close>

definition lower_char :: "char \<Rightarrow> char" where
  "lower_char c =
     (if (65 \<le> code_unit c \<and> code_unit c \<le> 90)
         \<or> (192 \<le> code_unit c \<and> code_unit c \<le> 222 \<and> code_unit c \<noteq> 215)
      then char_of (code_unit c + 32) else c)"

definition toLowerCase :: "string \<Rightarrow> string" where
  "toLowerCase s = map lower_char s"

definition startsWith :: "string \<Rightarrow> string \<Rightarrow> bool" where
  "startsWith s p = (take (length p) s = p)"

definition endsWith :: "string \<Rightarrow> string \<Rightarrow> bool" where
  "endsWith s p = (length p \<le> length s \<and> drop (length s - length p) s = p)"

fun includes_str :: "string \<Rightarrow> string \<Rightarrow> bool" where
  "includes_str [] p = (p = [])"
| "includes_str (x # xs) p = (startsWith (x # xs) p \<or> includes_str xs p)"

declare includes_str.simps [simp del]

text \<open>
  \<^verbatim>\<open>s.split(c)\<close> for a one-character separator: the pieces between the separators,
  always at least one piece (\<^verbatim>\<open>''.split('.')\<close> is \<^verbatim>\<open>['']\<close>).
\<close>

fun split_on :: "char \<Rightarrow> string \<Rightarrow> string list" where
  "split_on c [] = [[]]"
| "split_on c (x # xs) =
     (if x = c then [] # split_on c xs
      else (case split_on c xs of
              [] \<Rightarrow> [[x]]
            | p # ps \<Rightarrow> (x # p) # ps))"

declare split_on.simps [simp del]

text \<open>The value of a run of decimal digits, most significant digit first.\<close>

definition dec_value :: "string \<Rightarrow> nat" where
  "dec_value ds = foldl (\<lambda>acc c. 10 * acc + digit_val c) 0 ds"

text \<open>
  \<^verbatim>\<open>parseInt(p, 10)\<close>: leading white space is skipped, one sign is read, then the
  longest run of decimal digits; no digit gives \<^verbatim>\<open>NaN\<close>, which is \<^const>\<open>None\<close> here.
  A JavaScript number is a double: the value is exact for runs below \<open>2^53\<close>, so for
  every run of at most 15 digits; the results below only use runs of at most three.
\<close>

definition parseInt10 :: "string \<Rightarrow> int option" where
  "parseInt10 s =
     (let t = dropWhile is_js_space s;
          neg = (t \<noteq> [] \<and> hd t = CHR ''-'');
          r = (if t \<noteq> [] \<and> (hd t = CHR ''-'' \<or> hd t = CHR ''+'') then tl t else t);
          ds = takeWhile is_digit r
      in if ds = [] then None
         else Some (if neg then - int (dec_value ds) else int (dec_value ds)))"

text \<open>
  \<^verbatim>\<open>x << k\<close>: the operand is converted to a signed 32-bit integer, shifted, and the
  result is again a signed 32-bit integer.
\<close>

definition toInt32 :: "int \<Rightarrow> int" where
  "toInt32 x = (let m = x mod 2 ^ 32 in if m \<ge> 2 ^ 31 then m - 2 ^ 32 else m)"

definition shl32 :: "int \<Rightarrow> nat \<Rightarrow> int" where
  "shl32 x k = toInt32 (toInt32 x * 2 ^ (k mod 32))"

section \<open>The IPv4 classifier\<close>

text \<open>The table \<^verbatim>\<open>BLOCKED_IP_RANGES\<close>, in the order of the source.\<close>

definition BLOCKED_IP_RANGES :: "(string \<times> string) list" where
  "BLOCKED_IP_RANGES =
    [(''127.0.0.0'', ''127.255.255.255''),
     (''10.0.0.0'', ''10.255.255.255''),
     (''172.16.0.0'', ''172.31.255.255''),
     (''192.168.0.0'', ''192.168.255.255''),
     (''169.254.0.0'', ''169.254.255.255''),
     (''169.254.169.254'', ''169.254.169.254''),
     (''0.0.0.0'', ''0.255.255.255''),
     (''100.64.0.0'', ''100.127.255.255''),
     (''192.0.0.0'', ''192.0.0.255''),
     (''192.0.2.0'', ''192.0.2.255''),
     (''198.51.100.0'', ''198.51.100.255''),
     (''203.0.113.0'', ''203.0.113.255''),
     (''198.18.0.0'', ''198.19.255.255''),
     (''224.0.0.0'', ''239.255.255.255''),
     (''240.0.0.0'', ''255.255.255.255'')]"

text \<open>
  \<^verbatim>\<open>ipToNumber\<close>: \<^verbatim>\<open>-1\<close> unless the string splits into four parts that all parse;
  otherwise \<^verbatim>\<open>(parts[0] << 24) + (parts[1] << 16) + (parts[2] << 8) + parts[3]\<close>,
  where the three shifts are 32-bit signed and the sum is an ordinary number.
\<close>

definition ipToNumber :: "string \<Rightarrow> int" where
  "ipToNumber ip =
     (let parts = map parseInt10 (split_on CHR ''.'' ip)
      in if length parts \<noteq> 4 \<or> list_ex (\<lambda>p. p = None) parts then - 1
         else shl32 (the (parts ! 0)) 24 + shl32 (the (parts ! 1)) 16
              + shl32 (the (parts ! 2)) 8 + the (parts ! 3))"

text \<open>\<^verbatim>\<open>isBlockedIP\<close>: a negative number is blocked at once, then the table is scanned.\<close>

definition isBlockedIP :: "string \<Rightarrow> bool" where
  "isBlockedIP ip =
     (let ipNum = ipToNumber ip
      in if ipNum < 0 then True
         else list_ex (\<lambda>range. ipNum \<ge> ipToNumber (fst range) \<and> ipNum \<le> ipToNumber (snd range))
                BLOCKED_IP_RANGES)"

section \<open>The hostname classifier\<close>

text \<open>
  Every entry of \<^verbatim>\<open>BLOCKED_HOSTNAME_PATTERNS\<close> is either \<^verbatim>\<open>/^x$/i\<close> or
  \<^verbatim>\<open>/\.x$/i\<close>: the whole name, or an end of the name that starts with a dot. The
  literal text \<open>x\<close> has lower-case letters, digits, dots and hyphens only, so matching
  without regard to case is comparing with the lower-cased name.
\<close>

datatype host_pattern = Whole string | Ending string

fun pattern_test :: "host_pattern \<Rightarrow> string \<Rightarrow> bool" where
  "pattern_test (Whole x) s = (toLowerCase s = x)"
| "pattern_test (Ending x) s = endsWith (toLowerCase s) x"

definition BLOCKED_HOSTNAME_PATTERNS :: "host_pattern list" where
  "BLOCKED_HOSTNAME_PATTERNS =
    [Whole ''localhost'',
     Ending ''.local'',
     Ending ''.internal'',
     Ending ''.localdomain'',
     Ending ''.localhost'',
     Whole ''local'',
     Whole ''host'',
     Ending ''.home'',
     Ending ''.lan'',
     Ending ''.intranet'',
     Ending ''.corp'',
     Ending ''.private'',
     Whole ''ip6-localhost'',
     Whole ''ip6-loopback'',
     Ending ''.ip6.allhosts'',
     Ending ''.ip6.allnodes'',
     Ending ''.ip6.allrouters'',
     Ending ''.ip6.local'',
     Ending ''.kubernetes.default'',
     Ending ''.kubernetes.default.svc'',
     Ending ''.svc.cluster.local'',
     Ending ''.docker.internal'',
     Ending ''.metadata'',
     Ending ''.metadata.google'',
     Ending ''.metadata.google.internal'']"

definition isBlockedHostname :: "string \<Rightarrow> bool" where
  "isBlockedHostname hostname =
     (let normalizedHostname = toLowerCase hostname
      in list_ex (\<lambda>pattern. pattern_test pattern normalizedHostname) BLOCKED_HOSTNAME_PATTERNS)"

section \<open>Recognising an IP literal\<close>

text \<open>
  \<^verbatim>\<open>\d{1,3}\.\d{1,3}\.\d{1,3}\.\d{1,3}\<close> against a whole string: the digit groups
  hold no dot, so the string matches when its split at the dots is four groups of one
  to three digits.
\<close>

definition digit_group :: "string \<Rightarrow> bool" where
  "digit_group p = (1 \<le> length p \<and> length p \<le> 3 \<and> list_all is_digit p)"

definition dotted_quad_text :: "string \<Rightarrow> bool" where
  "dotted_quad_text s =
     (let parts = split_on CHR ''.'' s in length parts = 4 \<and> list_all digit_group parts)"

text \<open>
  \<^verbatim>\<open>/^([0-9a-fA-F]{0,4}:){2,7}[0-9a-fA-F]{0,4}$/\<close>: between three and eight groups of
  at most four hexadecimal digits, separated by colons.
\<close>

definition hex_group :: "string \<Rightarrow> bool" where
  "hex_group p = (length p \<le> 4 \<and> list_all is_hex p)"

definition ipv6Pattern :: "string \<Rightarrow> bool" where
  "ipv6Pattern s =
     (let parts = split_on CHR '':'' s
      in 3 \<le> length parts \<and> length parts \<le> 8 \<and> list_all hex_group parts)"

text \<open>
  \<^verbatim>\<open>/^::$|^::[0-9a-fA-F:]+$|^[0-9a-fA-F:]+::$|^[0-9a-fA-F:]+::[0-9a-fA-F:]+$/\<close>,
  one disjunct per alternative; \<open>hexcolon_plus\<close> is \<^verbatim>\<open>[0-9a-fA-F:]+\<close>.
\<close>

definition hexcolon_plus :: "string \<Rightarrow> bool" where
  "hexcolon_plus s = (s \<noteq> [] \<and> list_all (\<lambda>c. is_hex c \<or> c = CHR '':'') s)"

definition ipv6ShorthandPattern :: "string \<Rightarrow> bool" where
  "ipv6ShorthandPattern s =
     (s = ''::''
      \<or> (startsWith s ''::'' \<and> hexcolon_plus (drop 2 s))
      \<or> (endsWith s ''::'' \<and> hexcolon_plus (take (length s - 2) s))
      \<or> list_ex (\<lambda>i. hexcolon_plus (take i s) \<and> take 2 (drop i s) = ''::''
                       \<and> hexcolon_plus (drop (i + 2) s)) [0..<length s])"

definition isIPAddress :: "string \<Rightarrow> bool" where
  "isIPAddress str =
     (if dotted_quad_text str
      then list_all (\<lambda>p. case p of None \<Rightarrow> False | Some n \<Rightarrow> n \<ge> 0 \<and> n \<le> 255)
             (map parseInt10 (split_on CHR ''.'' str))
      else if ipv6Pattern str then True
      else if ipv6ShorthandPattern str then True
      else False)"

section \<open>The IPv6 classifier\<close>

text \<open>
  \<^verbatim>\<open>normalizedIP.match(/:ffff:(\d{1,3}\.\d{1,3}\.\d{1,3}\.\d{1,3})$/)\<close>: the leftmost
  place where \<^verbatim>\<open>:ffff:\<close> stands and the rest of the string, to its end, is a dotted
  quad; the result is the captured group, \<^const>\<open>None\<close> when there is no match.
\<close>

definition match_mapped_ipv4 :: "string \<Rightarrow> string option" where
  "match_mapped_ipv4 s =
     (case find (\<lambda>i. take 6 (drop i s) = '':ffff:'' \<and> dotted_quad_text (drop (i + 6) s))
             [0..<length s] of
        None \<Rightarrow> None
      | Some i \<Rightarrow> Some (drop (i + 6) s))"

definition isBlockedIPv6 :: "string \<Rightarrow> bool" where
  "isBlockedIPv6 ip =
     (let normalizedIP = toLowerCase ip
      in if normalizedIP = ''::1'' \<or> normalizedIP = ''0:0:0:0:0:0:0:1'' then True
         else if normalizedIP = ''::'' \<or> normalizedIP = ''0:0:0:0:0:0:0:0'' then True
         else if startsWith normalizedIP ''fe80:'' \<or> startsWith normalizedIP ''fe8''
                 \<or> startsWith normalizedIP ''fe9'' \<or> startsWith normalizedIP ''fea''
                 \<or> startsWith normalizedIP ''feb'' then True
         else if startsWith normalizedIP ''fc'' \<or> startsWith normalizedIP ''fd'' then True
         else if startsWith normalizedIP ''ff'' then True
         else if includes_str normalizedIP '':ffff:''
                 \<and> (case match_mapped_ipv4 normalizedIP of
                        None \<Rightarrow> False
                      | Some ipv4 \<Rightarrow> isBlockedIP ipv4) then True
         else False)"

section \<open>The outside world\<close>

text \<open>
  The validator reaches outside through four calls: \<^verbatim>\<open>new URL(s)\<close>,
  \<^verbatim>\<open>new URL(location, base).href\<close>, \<^verbatim>\<open>dns.lookup(hostname, {all: true})\<close> and
  \<^verbatim>\<open>https.request(options, ...)\<close>. They belong to the platform, not to the
  repository, so they are parameters of the model: an environment gives the answer of
  each call. Every effect of a run is recorded, in order, in a trace of events.
\<close>

record ParsedURL =
  protocol :: string
  hostname :: string
  port :: string
  pathname :: string
  search :: string

text \<open>A thrown value: an \<^verbatim>\<open>Error\<close> with its message, or anything else.\<close>

datatype exn = Error string | NonError

text \<open>\<^verbatim>\<open>parsedUrl.port || 443\<close> is the port text, or the number 443 when the text is empty.\<close>

datatype port_value = PortText string | PortNumber nat

record RequestOptions =
  opt_hostname :: string
  opt_port :: port_value
  opt_path :: string
  opt_method :: string
  opt_timeout :: nat
  opt_user_agent :: string

text \<open>
  What becomes of one request: the response callback runs, with \<^verbatim>\<open>res.statusCode\<close>
  and \<^verbatim>\<open>res.headers.location\<close> (each possibly undefined); or the \<^verbatim>\<open>error\<close> event
  fires; or the \<^verbatim>\<open>timeout\<close> event fires; or the call itself throws, which rejects the
  promise around it.
\<close>

datatype head_outcome =
    Response "nat option" "string option"
  | ErrorEvent
  | TimeoutEvent
  | RequestThrows exn

record env =
  new_URL :: "string \<Rightarrow> ParsedURL option"
  new_URL_href :: "string \<Rightarrow> string \<Rightarrow> string option"
  dnsLookup :: "string \<Rightarrow> string list option"
  https_request :: "RequestOptions \<Rightarrow> head_outcome"

datatype event =
    DnsLookupAll string
  | HttpsRequest RequestOptions
  | RequestDestroy
  | ConsoleError string

record ImageValidationResult =
  valid :: bool
  error :: "string option"

definition success :: ImageValidationResult where
  "success = \<lparr>valid = True, error = None\<rparr>"

definition failure :: "string \<Rightarrow> ImageValidationResult" where
  "failure msg = \<lparr>valid = False, error = Some msg\<rparr>"

definition MAX_REDIRECTS :: nat where
  "MAX_REDIRECTS = 3"

definition REQUEST_TIMEOUT :: nat where
  "REQUEST_TIMEOUT = 5000"

definition MAX_URL_LENGTH :: nat where
  "MAX_URL_LENGTH = 2048"

section \<open>Validating one URL\<close>

text \<open>
  \<^verbatim>\<open>resolveHostname\<close>: a lookup for all addresses of the name; a failed lookup is
  thrown again as an \<^verbatim>\<open>Error\<close> of its own.
\<close>

definition resolveHostname :: "env \<Rightarrow> string \<Rightarrow> event list \<times> (exn + string list)" where
  "resolveHostname e host =
     ([DnsLookupAll host],
      case dnsLookup e host of
        None \<Rightarrow> Inl (Error (''Failed to resolve hostname: '' @ host))
      | Some addresses \<Rightarrow> Inr addresses)"

text \<open>The loop over the resolved addresses: the first blocked address ends it.\<close>

fun checkResolvedIPs :: "string list \<Rightarrow> ImageValidationResult" where
  "checkResolvedIPs [] = success"
| "checkResolvedIPs (ip # ips) =
     (if includes_str ip '':''
      then (if isBlockedIPv6 ip then failure ''Resolved IP address is not allowed''
            else checkResolvedIPs ips)
      else (if isBlockedIP ip then failure ''Resolved IP address is not allowed''
            else checkResolvedIPs ips))"

definition validateSingleUrl :: "env \<Rightarrow> string \<Rightarrow> event list \<times> ImageValidationResult" where
  "validateSingleUrl e urlString =
     (if length urlString > MAX_URL_LENGTH then ([], failure ''URL exceeds maximum length'')
      else case new_URL e urlString of
        None \<Rightarrow> ([], failure ''Invalid URL format'')
      | Some parsedUrl \<Rightarrow>
          if protocol parsedUrl \<noteq> ''https:''
          then ([], failure ''Only HTTPS protocol is allowed for image URLs'')
          else if isBlockedHostname (hostname parsedUrl)
          then ([], failure ''Hostname is not allowed'')
          else if isIPAddress (hostname parsedUrl)
          then (if includes_str (hostname parsedUrl) '':''
                then (if isBlockedIPv6 (hostname parsedUrl)
                      then ([], failure ''IP address is not allowed'')
                      else ([], success))
                else (if isBlockedIP (hostname parsedUrl)
                      then ([], failure ''IP address is not allowed'')
                      else ([], success)))
          else (case resolveHostname e (hostname parsedUrl) of
                  (t, Inl err) \<Rightarrow> (t, failure ''Failed to resolve hostname'')
                | (t, Inr ips) \<Rightarrow> (t, checkResolvedIPs ips)))"

section \<open>The redirect probe\<close>

record RedirectResult =
  hasRedirect :: bool
  redirectUrl :: "string option"

definition noRedirect :: RedirectResult where
  "noRedirect = \<lparr>hasRedirect = False, redirectUrl = None\<rparr>"

definition requestOptions :: "ParsedURL \<Rightarrow> RequestOptions" where
  "requestOptions parsedUrl =
     \<lparr>opt_hostname = hostname parsedUrl,
      opt_port = (if port parsedUrl \<noteq> [] then PortText (port parsedUrl) else PortNumber 443),
      opt_path = pathname parsedUrl @ search parsedUrl,
      opt_method = ''HEAD'',
      opt_timeout = REQUEST_TIMEOUT,
      opt_user_agent = ''MD2Slide-ImageValidator/1.0''\<rparr>"

text \<open>
  \<^verbatim>\<open>checkForRedirect\<close>. The promise is settled once: by the response callback, by
  the \<^verbatim>\<open>error\<close> handler, or by the \<^verbatim>\<open>timeout\<close> handler, which destroys the request
  first. \<^verbatim>\<open>new URL(urlString)\<close> and the request call run inside the promise's
  executor, so what they throw rejects the promise. \<^verbatim>\<open>res.statusCode || 0\<close> reads
  an undefined status as 0, and \<^verbatim>\<open>&& res.headers.location\<close> holds for a header that
  is present and not the empty string.
\<close>

definition checkForRedirect :: "env \<Rightarrow> string \<Rightarrow> event list \<times> (exn + RedirectResult)" where
  "checkForRedirect e urlString =
     (case new_URL e urlString of
        None \<Rightarrow> ([], Inl (Error ''Invalid URL''))
      | Some parsedUrl \<Rightarrow>
          (let options = requestOptions parsedUrl
           in case https_request e options of
                Response status location \<Rightarrow>
                  (let statusCode = (case status of None \<Rightarrow> 0 | Some n \<Rightarrow> n)
                   in if statusCode \<ge> 300 \<and> statusCode < 400 \<and> location \<noteq> None
                         \<and> location \<noteq> Some []
                      then (case new_URL_href e (the location) urlString of
                              Some href \<Rightarrow>
                                ([HttpsRequest options],
                                 Inr \<lparr>hasRedirect = True, redirectUrl = Some href\<rparr>)
                            | None \<Rightarrow> ([HttpsRequest options], Inr noRedirect))
                      else ([HttpsRequest options], Inr noRedirect))
              | ErrorEvent \<Rightarrow> ([HttpsRequest options], Inr noRedirect)
              | TimeoutEvent \<Rightarrow> ([HttpsRequest options, RequestDestroy], Inr noRedirect)
              | RequestThrows x \<Rightarrow> ([HttpsRequest options], Inl x)))"

section \<open>Following the redirect chain\<close>

text \<open>
  \<^verbatim>\<open>redirectResult.hasRedirect && redirectResult.redirectUrl\<close>: the target, when the
  flag is set and the target is a non-empty string.
\<close>

definition redirectTarget :: "RedirectResult \<Rightarrow> string option" where
  "redirectTarget r =
     (if hasRedirect r \<and> redirectUrl r \<noteq> None \<and> redirectUrl r \<noteq> Some []
      then redirectUrl r else None)"

text \<open>
  \<^verbatim>\<open>followAndValidateRedirects\<close>. The set of visited URLs is created by the first
  call and handed down to each recursive call after the current URL has been added;
  nothing reads it once the calls return, so it is passed down only. The recursion
  ends because the redirect count grows and is bounded by \<^const>\<open>MAX_REDIRECTS\<close>.
\<close>

function followAndValidateRedirects ::
  "env \<Rightarrow> string \<Rightarrow> nat \<Rightarrow> string set \<Rightarrow> event list \<times> (exn + ImageValidationResult)" where
  "followAndValidateRedirects e urlString redirectCount visitedUrls =
     (if redirectCount > MAX_REDIRECTS then ([], Inr (failure ''Too many redirects''))
      else if urlString \<in> visitedUrls then ([], Inr (failure ''Redirect loop detected''))
      else (case validateSingleUrl e urlString of
              (t1, urlValidation) \<Rightarrow>
                if \<not> valid urlValidation
                then (t1, Inr \<lparr>valid = False, error = error urlValidation\<rparr>)
                else if redirectCount = 0 \<or> redirectCount < MAX_REDIRECTS
                then (case checkForRedirect e urlString of
                        (t2, Inl x) \<Rightarrow> (t1 @ t2, Inl x)
                      | (t2, Inr redirectResult) \<Rightarrow>
                          (case redirectTarget redirectResult of
                             Some target \<Rightarrow>
                               (case followAndValidateRedirects e target (redirectCount + 1)
                                       (insert urlString visitedUrls) of
                                  (t3, r) \<Rightarrow> (t1 @ t2 @ t3, r))
                           | None \<Rightarrow> (t1 @ t2, Inr success)))
                else (t1, Inr success)))"
  by pat_completeness auto
termination
  by (relation "measure (\<lambda>(e, u, n, v). MAX_REDIRECTS + 1 - n)") (auto simp: MAX_REDIRECTS_def)

declare followAndValidateRedirects.simps [simp del]

section \<open>The entry points\<close>

text \<open>A value handed to \<^verbatim>\<open>validateImageUrl\<close>: the type says string, the code checks.\<close>

datatype js_value = JNull | JUndefined | JString string | JOther

text \<open>\<^verbatim>\<open>/[\x00-\x1F\x7F]/.test(s)\<close>\<close>

definition hasControlChar :: "string \<Rightarrow> bool" where
  "hasControlChar s = list_ex (\<lambda>c. code_unit c \<le> 31 \<or> code_unit c = 127) s"

text \<open>
  \<^verbatim>\<open>/^https?:\/\/[^/]*\/\//.test(s)\<close>: after \<^verbatim>\<open>http://\<close> or \<^verbatim>\<open>https://\<close>, the run
  of characters other than a slash is followed by two slashes.
\<close>

definition doubleSlashAfterAuthority :: "string \<Rightarrow> bool" where
  "doubleSlashAfterAuthority s =
     (let r = (if startsWith s ''http://'' then Some (drop 7 s)
               else if startsWith s ''https://'' then Some (drop 8 s)
               else None)
      in case r of
           None \<Rightarrow> False
         | Some rest \<Rightarrow> startsWith (dropWhile (\<lambda>c. c \<noteq> CHR ''/'') rest) ''//'')"

text \<open>
  \<^verbatim>\<open>validateImageUrl\<close>. The \<^verbatim>\<open>try\<close>/\<^verbatim>\<open>catch\<close> around the chain validation turns a
  rejection into the fixed verdict, after writing the message to the console.
\<close>

definition validateImageUrl :: "env \<Rightarrow> js_value \<Rightarrow> event list \<times> (exn + ImageValidationResult)" where
  "validateImageUrl e url =
     (case url of
        JNull \<Rightarrow> ([], Inr (failure ''Image URL is required''))
      | JUndefined \<Rightarrow> ([], Inr (failure ''Image URL is required''))
      | JOther \<Rightarrow> ([], Inr (failure ''Image URL must be a string''))
      | JString s \<Rightarrow>
          (let trimmedUrl = trim s
           in if length trimmedUrl = 0 then ([], Inr (failure ''Image URL cannot be empty''))
              else if hasControlChar trimmedUrl
              then ([], Inr (failure ''Image URL contains invalid characters''))
              else if includes_str trimmedUrl ''%40'' then ([], Inr (failure ''Invalid URL format''))
              else if includes_str trimmedUrl [CHR 0x5C]
              then ([], Inr (failure ''Invalid URL format''))
              else if doubleSlashAfterAuthority trimmedUrl
              then ([], Inr (failure ''Invalid URL format''))
              else (case followAndValidateRedirects e trimmedUrl 0 {} of
                      (t, Inr r) \<Rightarrow> (t, Inr r)
                    | (t, Inl x) \<Rightarrow>
                        (t @ [ConsoleError
                               (''[ImageURLValidator] Validation error: ''
                                @ (case x of Error m \<Rightarrow> m
                                   | NonError \<Rightarrow> ''Unknown validation error''))],
                         Inr (failure ''Failed to validate image URL'')))))"

text \<open>
  \<^verbatim>\<open>Promise.all\<close>: fulfilled with the values, in the order of the promises, when every
  promise is fulfilled; rejected as soon as one is.
\<close>

fun promise_all :: "(exn + 'a) list \<Rightarrow> 'a list option" where
  "promise_all [] = Some []"
| "promise_all (Inl x # ps) = None"
| "promise_all (Inr v # ps) = (case promise_all ps of None \<Rightarrow> None | Some vs \<Rightarrow> Some (v # vs))"

text \<open>
  \<^verbatim>\<open>validateImageUrls\<close>: one validation per URL, awaited together. The validations
  run concurrently, so the order in which their events interleave is not fixed; the
  model keeps the settled results.
\<close>

definition validateImageUrls :: "env \<Rightarrow> js_value list \<Rightarrow> ImageValidationResult list option" where
  "validateImageUrls e urls = promise_all (map (\<lambda>url. snd (validateImageUrl e url)) urls)"

text \<open>
  The checks of \<^verbatim>\<open>validateImageUrl\<close> on a string, before the chain validation
  starts: a string passes when none of the early returns is taken.
\<close>

definition passesInputChecks :: "string \<Rightarrow> bool" where
  "passesInputChecks s =
     (length (trim s) \<noteq> 0 \<and> \<not> hasControlChar (trim s) \<and> \<not> includes_str (trim s) ''%40''
      \<and> \<not> includes_str (trim s) [CHR 0x5C] \<and> \<not> doubleSlashAfterAuthority (trim s))"

section \<open>Notions of the specification\<close>

text \<open>
  The specification speaks of IPv4 addresses as 32-bit unsigned integers and of blocked
  ranges in prefix notation. These definitions follow its words; they are what the
  classifier above is compared with.
\<close>

definition ipv4_number :: "nat \<Rightarrow> nat \<Rightarrow> nat \<Rightarrow> nat \<Rightarrow> nat" where
  "ipv4_number a b c d = ((a * 256 + b) * 256 + c) * 256 + d"

text \<open>The listed blocked ranges: the first address of the range and the prefix length.\<close>

definition listed_ranges :: "((nat \<times> nat \<times> nat \<times> nat) \<times> nat) list" where
  "listed_ranges =
    [((127, 0, 0, 0), 8), ((10, 0, 0, 0), 8), ((172, 16, 0, 0), 12), ((192, 168, 0, 0), 16),
     ((169, 254, 0, 0), 16), ((0, 0, 0, 0), 8), ((100, 64, 0, 0), 10), ((192, 0, 0, 0), 24),
     ((192, 0, 2, 0), 24), ((198, 51, 100, 0), 24), ((203, 0, 113, 0), 24),
     ((198, 18, 0, 0), 15), ((224, 0, 0, 0), 4), ((240, 0, 0, 0), 4)]"

fun in_range :: "nat \<Rightarrow> (nat \<times> nat \<times> nat \<times> nat) \<times> nat \<Rightarrow> bool" where
  "in_range v ((a, b, c, d), len) =
     (v div 2 ^ (32 - len) = ipv4_number a b c d div 2 ^ (32 - len))"

definition in_listed_ranges :: "nat \<Rightarrow> nat \<Rightarrow> nat \<Rightarrow> nat \<Rightarrow> bool" where
  "in_listed_ranges a b c d = list_ex (in_range (ipv4_number a b c d)) listed_ranges"

text \<open>The decimal text of a number, and the dotted quad of four octets.\<close>

definition digit_char :: "nat \<Rightarrow> char" where
  "digit_char n = ''0123456789'' ! n"

fun dec_text :: "nat \<Rightarrow> string" where
  "dec_text n =
     (if n < 10 then [digit_char n] else dec_text (n div 10) @ [digit_char (n mod 10)])"

declare dec_text.simps [simp del]

definition quad_text :: "nat \<Rightarrow> nat \<Rightarrow> nat \<Rightarrow> nat \<Rightarrow> string" where
  "quad_text a b c d = dec_text a @ ''.'' @ dec_text b @ ''.'' @ dec_text c @ ''.'' @ dec_text d"

text \<open>
  An IPv6 address in text begins with its first 16-bit group, written as one to four
  hexadecimal digits and followed by a colon. The address lies in the prefix
  \<open>base/len\<close> (with \<open>len \<le> 16\<close>) when the first group agrees with \<open>base\<close> on its
  leading \<open>len\<close> bits.
\<close>

definition hex_digit_val :: "char \<Rightarrow> nat" where
  "hex_digit_val c =
     (if is_digit c then code_unit c - 48
      else if 97 \<le> code_unit c \<and> code_unit c \<le> 102 then code_unit c - 87
      else code_unit c - 55)"

definition hex_value :: "string \<Rightarrow> nat" where
  "hex_value ds = foldl (\<lambda>acc c. 16 * acc + hex_digit_val c) 0 ds"

definition first_group :: "string \<Rightarrow> string" where
  "first_group s = takeWhile (\<lambda>c. c \<noteq> CHR '':'') s"

definition in_prefix16 :: "string \<Rightarrow> nat \<Rightarrow> nat \<Rightarrow> bool" where
  "in_prefix16 s base len =
     (1 \<le> length (first_group s) \<and> length (first_group s) \<le> 4
      \<and> list_all is_hex (first_group s)
      \<and> hex_value (first_group s) div 2 ^ (16 - len) = base div 2 ^ (16 - len))"

text \<open>
  A redirect path: every URL of the list passes the single-URL validation and its
  probe reports a redirect, to the next URL of the list or, for the last one, to
  \<open>final\<close>.
\<close>

fun redirect_path :: "env \<Rightarrow> string list \<Rightarrow> string \<Rightarrow> bool" where
  "redirect_path e [] final = True"
| "redirect_path e (u # us) final =
     (valid (snd (validateSingleUrl e u))
      \<and> (case snd (checkForRedirect e u) of
            Inl x \<Rightarrow> False
          | Inr r \<Rightarrow> redirectTarget r = Some (case us of [] \<Rightarrow> final | v # vs \<Rightarrow> v))
      \<and> redirect_path e us final)"

section \<open>Concrete environments\<close>

text \<open>
  An environment given by tables: the URLs that parse, the locations that resolve
  against a base, the names that resolve, and the answer to a request by its path. A
  request for a path outside the table meets a transport error.
\<close>

definition table_env ::
  "(string \<times> ParsedURL) list \<Rightarrow> ((string \<times> string) \<times> string) list
   \<Rightarrow> (string \<times> string list) list \<Rightarrow> (string \<times> head_outcome) list \<Rightarrow> env" where
  "table_env urls hrefs names replies =
     \<lparr>new_URL = map_of urls,
      new_URL_href = (\<lambda>location base. map_of hrefs (location, base)),
      dnsLookup = map_of names,
      https_request = (\<lambda>options. case map_of replies (opt_path options) of
                                    None \<Rightarrow> ErrorEvent
                                  | Some out \<Rightarrow> out)\<rparr>"

definition https_url :: "string \<Rightarrow> string \<Rightarrow> ParsedURL" where
  "https_url host path =
     \<lparr>protocol = ''https:'', hostname = host, port = [], pathname = path, search = []\<rparr>"

text \<open>
  Five pages on the public address 8.8.8.8; each of the first four answers with a
  redirect to the next one.
\<close>

definition env_four_redirects :: env where
  "env_four_redirects =
     table_env
       [(''https://8.8.8.8/0'', https_url ''8.8.8.8'' ''/0''),
        (''https://8.8.8.8/1'', https_url ''8.8.8.8'' ''/1''),
        (''https://8.8.8.8/2'', https_url ''8.8.8.8'' ''/2''),
        (''https://8.8.8.8/3'', https_url ''8.8.8.8'' ''/3''),
        (''https://8.8.8.8/4'', https_url ''8.8.8.8'' ''/4'')]
       [((''/1'', ''https://8.8.8.8/0''), ''https://8.8.8.8/1''),
        ((''/2'', ''https://8.8.8.8/1''), ''https://8.8.8.8/2''),
        ((''/3'', ''https://8.8.8.8/2''), ''https://8.8.8.8/3''),
        ((''/4'', ''https://8.8.8.8/3''), ''https://8.8.8.8/4'')]
       []
       [(''/0'', Response (Some 302) (Some ''/1'')),
        (''/1'', Response (Some 302) (Some ''/2'')),
        (''/2'', Response (Some 302) (Some ''/3'')),
        (''/3'', Response (Some 302) (Some ''/4'')),
        (''/4'', Response (Some 200) None)]"

text \<open>Four pages that redirect in a circle: the fourth sends back to the first.\<close>

definition env_cycle_of_four :: env where
  "env_cycle_of_four =
     table_env
       [(''https://8.8.8.8/a'', https_url ''8.8.8.8'' ''/a''),
        (''https://8.8.8.8/b'', https_url ''8.8.8.8'' ''/b''),
        (''https://8.8.8.8/c'', https_url ''8.8.8.8'' ''/c''),
        (''https://8.8.8.8/d'', https_url ''8.8.8.8'' ''/d'')]
       [((''/b'', ''https://8.8.8.8/a''), ''https://8.8.8.8/b''),
        ((''/c'', ''https://8.8.8.8/b''), ''https://8.8.8.8/c''),
        ((''/d'', ''https://8.8.8.8/c''), ''https://8.8.8.8/d''),
        ((''/a'', ''https://8.8.8.8/d''), ''https://8.8.8.8/a'')]
       []
       [(''/a'', Response (Some 302) (Some ''/b'')),
        (''/b'', Response (Some 302) (Some ''/c'')),
        (''/c'', Response (Some 302) (Some ''/d'')),
        (''/d'', Response (Some 302) (Some ''/a''))]"

text \<open>One page that redirects to itself.\<close>

definition env_self_redirect :: env where
  "env_self_redirect =
     table_env
       [(''https://8.8.8.8/a'', https_url ''8.8.8.8'' ''/a'')]
       [((''/a'', ''https://8.8.8.8/a''), ''https://8.8.8.8/a'')]
       []
       [(''/a'', Response (Some 301) (Some ''/a''))]"

text \<open>
  A page on a public address, the metadata address, and a name with two addresses of
  which the second is private.
\<close>

definition env_hosts :: env where
  "env_hosts =
     table_env
       [(''https://8.8.8.8/x.png'', https_url ''8.8.8.8'' ''/x.png''),
        (''https://169.254.169.254/latest/meta-data/'',
           https_url ''169.254.169.254'' ''/latest/meta-data/''),
        (''https://example.com/x.png'', https_url ''example.com'' ''/x.png'')]
       []
       [(''example.com'', [''93.184.216.34'', ''10.0.0.1''])]
       [(''/x.png'', Response (Some 200) None)]"

text \<open>
  A page that answers 302 with an empty \<^verbatim>\<open>Location\<close> header; the empty reference
  resolves to the base URL itself. A second page redirects properly, a third one times
  out.
\<close>

definition env_probe :: env where
  "env_probe =
     table_env
       [(''https://8.8.8.8/empty'', https_url ''8.8.8.8'' ''/empty''),
        (''https://8.8.8.8/moved'', https_url ''8.8.8.8'' ''/moved''),
        (''https://8.8.8.8/slow'', https_url ''8.8.8.8'' ''/slow'')]
       [(([], ''https://8.8.8.8/empty''), ''https://8.8.8.8/empty''),
        ((''/new'', ''https://8.8.8.8/moved''), ''https://8.8.8.8/new'')]
       []
       [(''/empty'', Response (Some 302) (Some [])),
        (''/moved'', Response (Some 302) (Some ''/new'')),
        (''/slow'', TimeoutEvent)]"

text \<open>A page for which the request call throws.\<close>

definition env_throwing :: env where
  "env_throwing =
     table_env
       [(''https://8.8.8.8/boom'', https_url ''8.8.8.8'' ''/boom'')]
       []
       []
       [(''/boom'', RequestThrows (Error ''connect ECONNREFUSED 10.1.2.3:443''))]"

text \<open>
  Two URLs whose host is an IPv6 literal. \<^verbatim>\<open>new URL(s).hostname\<close> reports such a host
  the way it is serialised, inside square brackets; no name in brackets resolves.
\<close>

definition env_ipv6_literal :: env where
  "env_ipv6_literal =
     table_env
       [(''https://[2001:4860:4860::8888]/x.png'', https_url ''[2001:4860:4860::8888]'' ''/x.png''),
        (''https://[::1]/x.png'', https_url ''[::1]'' ''/x.png'')]
       []
       []
       []"

section \<open>Properties of the chain validation\<close>

lemma follow_too_many:
  "n > MAX_REDIRECTS \<Longrightarrow>
   followAndValidateRedirects e u n V = ([], Inr (failure ''Too many redirects''))"
  by (subst followAndValidateRedirects.simps) simp

lemma follow_loop:
  "n \<le> MAX_REDIRECTS \<Longrightarrow> u \<in> V \<Longrightarrow>
   followAndValidateRedirects e u n V = ([], Inr (failure ''Redirect loop detected''))"
  by (subst followAndValidateRedirects.simps) simp

lemma follow_invalid:
  "n \<le> MAX_REDIRECTS \<Longrightarrow> u \<notin> V \<Longrightarrow> \<not> valid (snd (validateSingleUrl e u)) \<Longrightarrow>
   followAndValidateRedirects e u n V =
     (fst (validateSingleUrl e u),
      Inr \<lparr>valid = False, error = error (snd (validateSingleUrl e u))\<rparr>)"
  by (subst followAndValidateRedirects.simps) (simp add: case_prod_beta)

lemma follow_last:
  "n = MAX_REDIRECTS \<Longrightarrow> u \<notin> V \<Longrightarrow> valid (snd (validateSingleUrl e u)) \<Longrightarrow>
   followAndValidateRedirects e u n V = (fst (validateSingleUrl e u), Inr success)"
  by (subst followAndValidateRedirects.simps) (simp add: MAX_REDIRECTS_def case_prod_beta)

lemma follow_throw:
  "n < MAX_REDIRECTS \<Longrightarrow> u \<notin> V \<Longrightarrow> valid (snd (validateSingleUrl e u)) \<Longrightarrow>
   snd (checkForRedirect e u) = Inl x \<Longrightarrow>
   followAndValidateRedirects e u n V =
     (fst (validateSingleUrl e u) @ fst (checkForRedirect e u), Inl x)"
  by (subst followAndValidateRedirects.simps) (auto simp: case_prod_beta split: sum.splits)

lemma follow_no_redirect:
  "n < MAX_REDIRECTS \<Longrightarrow> u \<notin> V \<Longrightarrow> valid (snd (validateSingleUrl e u)) \<Longrightarrow>
   snd (checkForRedirect e u) = Inr rr \<Longrightarrow> redirectTarget rr = None \<Longrightarrow>
   followAndValidateRedirects e u n V =
     (fst (validateSingleUrl e u) @ fst (checkForRedirect e u), Inr success)"
  by (subst followAndValidateRedirects.simps) (auto simp: case_prod_beta split: sum.splits)

lemma follow_redirect:
  "n < MAX_REDIRECTS \<Longrightarrow> u \<notin> V \<Longrightarrow> valid (snd (validateSingleUrl e u)) \<Longrightarrow>
   snd (checkForRedirect e u) = Inr rr \<Longrightarrow> redirectTarget rr = Some target \<Longrightarrow>
   followAndValidateRedirects e u n V =
     (fst (validateSingleUrl e u) @ fst (checkForRedirect e u)
        @ fst (followAndValidateRedirects e target (n + 1) (insert u V)),
      snd (followAndValidateRedirects e target (n + 1) (insert u V)))"
  by (subst followAndValidateRedirects.simps) (auto simp: case_prod_beta split: sum.splits)

text \<open>Along a redirect path of fresh URLs the chain validation moves to the end of the path.\<close>

lemma follow_along_path:
  "us \<noteq> [] \<Longrightarrow> redirect_path e us final \<Longrightarrow> distinct us \<Longrightarrow> set us \<inter> V = {} \<Longrightarrow>
   n + length us \<le> MAX_REDIRECTS \<Longrightarrow>
   snd (followAndValidateRedirects e (hd us) n V) =
     snd (followAndValidateRedirects e final (n + length us) (V \<union> set us))"
proof (induction us arbitrary: n V)
  case Nil
  then show ?case by simp
next
  case (Cons u us)
  from Cons.prems have fresh: "u \<notin> V" and small: "n < MAX_REDIRECTS"
    and ok: "valid (snd (validateSingleUrl e u))"
    by auto
  from Cons.prems obtain rr where
    probe: "snd (checkForRedirect e u) = Inr rr"
    and target: "redirectTarget rr = Some (case us of [] \<Rightarrow> final | v # vs \<Rightarrow> v)"
    by (auto split: sum.splits)
  have step: "snd (followAndValidateRedirects e u n V) =
      snd (followAndValidateRedirects e (case us of [] \<Rightarrow> final | v # vs \<Rightarrow> v) (n + 1) (insert u V))"
    using follow_redirect [OF small fresh ok probe target] by simp
  show ?case
  proof (cases us)
    case Nil
    with step show ?thesis by simp
  next
    case (Cons v vs)
    have "snd (followAndValidateRedirects e (hd us) (n + 1) (insert u V)) =
        snd (followAndValidateRedirects e final (n + 1 + length us) (insert u V \<union> set us))"
      using Cons.prems Cons by (intro Cons.IH) auto
    with step Cons show ?thesis by (simp add: Un_commute insert_commute)
  qed
qed

text \<open>When the input checks pass, the entry point runs the chain validation on the trimmed string.\<close>

lemma validateImageUrl_checked:
  "passesInputChecks s \<Longrightarrow> followAndValidateRedirects e (trim s) 0 {} = (t, Inr r) \<Longrightarrow>
   validateImageUrl e (JString s) = (t, Inr r)"
  by (simp add: validateImageUrl_def passesInputChecks_def Let_def)

lemma validateImageUrl_caught:
  "passesInputChecks s \<Longrightarrow> followAndValidateRedirects e (trim s) 0 {} = (t, Inl x) \<Longrightarrow>
   validateImageUrl e (JString s) =
     (t @ [ConsoleError (''[ImageURLValidator] Validation error: ''
             @ (case x of Error m \<Rightarrow> m | NonError \<Rightarrow> ''Unknown validation error''))],
      Inr (failure ''Failed to validate image URL''))"
  by (simp add: validateImageUrl_def passesInputChecks_def Let_def)

text \<open>The single-URL validation of a URL whose host is an IP literal.\<close>

lemma validateSingleUrl_literal:
  "length u \<le> MAX_URL_LENGTH \<Longrightarrow> new_URL e u = Some p \<Longrightarrow> protocol p = ''https:'' \<Longrightarrow>
   \<not> isBlockedHostname (hostname p) \<Longrightarrow> isIPAddress (hostname p) \<Longrightarrow>
   validateSingleUrl e u =
     ([], if (if includes_str (hostname p) '':'' then isBlockedIPv6 (hostname p)
              else isBlockedIP (hostname p))
          then failure ''IP address is not allowed'' else success)"
  by (simp add: validateSingleUrl_def)

text \<open>Facts about the address 8.8.8.8, by evaluation.\<close>

lemma public_8888:
  "\<not> isBlockedHostname ''8.8.8.8''" "isIPAddress ''8.8.8.8''" "\<not> isBlockedIP ''8.8.8.8''"
  "\<not> includes_str ''8.8.8.8'' '':''"
  by code_simp+

section \<open>A chain of four redirects\<close>

lemma input_0: "passesInputChecks ''https://8.8.8.8/0''" "trim ''https://8.8.8.8/0'' = ''https://8.8.8.8/0''"
  by code_simp+

lemma four_single:
  "validateSingleUrl env_four_redirects ''https://8.8.8.8/0'' = ([], success)"
  "validateSingleUrl env_four_redirects ''https://8.8.8.8/1'' = ([], success)"
  "validateSingleUrl env_four_redirects ''https://8.8.8.8/2'' = ([], success)"
  "validateSingleUrl env_four_redirects ''https://8.8.8.8/3'' = ([], success)"
  by (simp_all add: validateSingleUrl_def env_four_redirects_def table_env_def https_url_def
      MAX_URL_LENGTH_def public_8888)

lemma four_probe:
  "checkForRedirect env_four_redirects ''https://8.8.8.8/0'' =
     ([HttpsRequest (requestOptions (https_url ''8.8.8.8'' ''/0''))],
      Inr \<lparr>hasRedirect = True, redirectUrl = Some ''https://8.8.8.8/1''\<rparr>)"
  "checkForRedirect env_four_redirects ''https://8.8.8.8/1'' =
     ([HttpsRequest (requestOptions (https_url ''8.8.8.8'' ''/1''))],
      Inr \<lparr>hasRedirect = True, redirectUrl = Some ''https://8.8.8.8/2''\<rparr>)"
  "checkForRedirect env_four_redirects ''https://8.8.8.8/2'' =
     ([HttpsRequest (requestOptions (https_url ''8.8.8.8'' ''/2''))],
      Inr \<lparr>hasRedirect = True, redirectUrl = Some ''https://8.8.8.8/3''\<rparr>)"
  by (simp_all add: checkForRedirect_def env_four_redirects_def table_env_def https_url_def
      requestOptions_def Let_def)

text \<open>
  Claim C1: a URL that redirects four times in a row is to be rejected with
  \<^verbatim>\<open>Too many redirects\<close>. The theorem runs the validator on such a chain, every hop
  of which passes the single-URL validation: the hops 0 to 3 are validated, the hops 0
  to 2 are probed, the hop 3 is accepted without a probe, and the verdict is valid. The
  guard \<^verbatim>\<open>redirectCount === 0 || redirectCount < MAX_REDIRECTS\<close> stops the probing
  before the count can pass \<^const>\<open>MAX_REDIRECTS\<close>.
\<close>

theorem four_redirects_accepted:
  "validateImageUrl env_four_redirects (JString ''https://8.8.8.8/0'') =
     ([HttpsRequest (requestOptions (https_url ''8.8.8.8'' ''/0'')),
       HttpsRequest (requestOptions (https_url ''8.8.8.8'' ''/1'')),
       HttpsRequest (requestOptions (https_url ''8.8.8.8'' ''/2''))],
      Inr \<lparr>valid = True, error = None\<rparr>)"
proof -
  have hop3: "followAndValidateRedirects env_four_redirects ''https://8.8.8.8/3'' (Suc (Suc (Suc 0)))
      {''https://8.8.8.8/2'', ''https://8.8.8.8/1'', ''https://8.8.8.8/0''} = ([], Inr success)"
    by (subst follow_last) (simp_all add: MAX_REDIRECTS_def four_single success_def)
  have hop2: "followAndValidateRedirects env_four_redirects ''https://8.8.8.8/2'' (Suc (Suc 0))
      {''https://8.8.8.8/1'', ''https://8.8.8.8/0''} =
      ([HttpsRequest (requestOptions (https_url ''8.8.8.8'' ''/2''))], Inr success)"
    by (subst follow_redirect [where target = "''https://8.8.8.8/3''"
          and rr = "\<lparr>hasRedirect = True, redirectUrl = Some ''https://8.8.8.8/3''\<rparr>"])
      (simp_all add: MAX_REDIRECTS_def four_single four_probe success_def redirectTarget_def hop3)
  have hop1: "followAndValidateRedirects env_four_redirects ''https://8.8.8.8/1'' (Suc 0)
      {''https://8.8.8.8/0''} =
      ([HttpsRequest (requestOptions (https_url ''8.8.8.8'' ''/1'')),
        HttpsRequest (requestOptions (https_url ''8.8.8.8'' ''/2''))], Inr success)"
    by (subst follow_redirect [where target = "''https://8.8.8.8/2''"
          and rr = "\<lparr>hasRedirect = True, redirectUrl = Some ''https://8.8.8.8/2''\<rparr>"])
      (simp_all add: MAX_REDIRECTS_def four_single four_probe success_def redirectTarget_def hop2)
  have hop0: "followAndValidateRedirects env_four_redirects ''https://8.8.8.8/0'' 0 {} =
      ([HttpsRequest (requestOptions (https_url ''8.8.8.8'' ''/0'')),
        HttpsRequest (requestOptions (https_url ''8.8.8.8'' ''/1'')),
        HttpsRequest (requestOptions (https_url ''8.8.8.8'' ''/2''))], Inr success)"
    by (subst follow_redirect [where target = "''https://8.8.8.8/1''"
          and rr = "\<lparr>hasRedirect = True, redirectUrl = Some ''https://8.8.8.8/1''\<rparr>"])
      (simp_all add: MAX_REDIRECTS_def four_single four_probe success_def redirectTarget_def hop1)
  show ?thesis
    using validateImageUrl_checked [OF input_0(1), of env_four_redirects] hop0
    by (simp add: input_0 success_def)
qed

section \<open>Single-URL validation\<close>

lemma checkResolvedIPs_any:
  "checkResolvedIPs ips =
     (if list_ex (\<lambda>ip. if includes_str ip '':'' then isBlockedIPv6 ip else isBlockedIP ip) ips
      then failure ''Resolved IP address is not allowed'' else success)"
  by (induction ips) simp_all

lemma validateSingleUrl_resolved:
  "length u \<le> MAX_URL_LENGTH \<Longrightarrow> new_URL e u = Some p \<Longrightarrow> protocol p = ''https:'' \<Longrightarrow>
   \<not> isBlockedHostname (hostname p) \<Longrightarrow> \<not> isIPAddress (hostname p) \<Longrightarrow>
   validateSingleUrl e u =
     ([DnsLookupAll (hostname p)],
      case dnsLookup e (hostname p) of
        None \<Rightarrow> failure ''Failed to resolve hostname''
      | Some ips \<Rightarrow> checkResolvedIPs ips)"
  by (simp add: validateSingleUrl_def resolveHostname_def split: option.splits)

lemma validateSingleUrl_verdict:
  "valid (snd (validateSingleUrl e u)) = (error (snd (validateSingleUrl e u)) = None)"
  by (simp add: validateSingleUrl_def resolveHostname_def checkResolvedIPs_any failure_def
      success_def split: option.splits)

text \<open>Facts about the hosts of the examples, by evaluation.\<close>

lemma metadata_address:
  "\<not> isBlockedHostname ''169.254.169.254''" "isIPAddress ''169.254.169.254''"
  "isBlockedIP ''169.254.169.254''" "\<not> includes_str ''169.254.169.254'' '':''"
  by code_simp+

lemma example_com:
  "\<not> isBlockedHostname ''example.com''" "\<not> isIPAddress ''example.com''"
  by code_simp+

lemma example_addresses:
  "\<not> includes_str ''93.184.216.34'' '':''" "\<not> isBlockedIP ''93.184.216.34''"
  "\<not> includes_str ''10.0.0.1'' '':''" "isBlockedIP ''10.0.0.1''"
  by code_simp+

lemma input_metadata:
  "passesInputChecks ''https://169.254.169.254/latest/meta-data/''"
  "trim ''https://169.254.169.254/latest/meta-data/'' = ''https://169.254.169.254/latest/meta-data/''"
  by code_simp+

text \<open>
  A hostname that \<^const>\<open>isIPAddress\<close> recognises is classified on the spot. For a URL
  that has passed the length, parse, protocol and hostname-pattern steps and whose
  reported hostname is recognised, the verdict is \<^verbatim>\<open>IP address is not allowed\<close> when
  the classifier of its family blocks the literal and valid otherwise, and the trace is
  empty: no DNS lookup is made. This is the path of every IPv4 literal; in particular
  \<^verbatim>\<open>https://169.254.169.254/latest/meta-data/\<close> is rejected with that reason by
  \<^const>\<open>validateImageUrl\<close>, for every environment in which the URL parses to its
  protocol and host.
\<close>

lemma recognised_literal_classified:
  "(length u \<le> MAX_URL_LENGTH \<and> new_URL e u = Some p \<and> protocol p = ''https:''
      \<and> \<not> isBlockedHostname (hostname p) \<and> isIPAddress (hostname p)
    \<longrightarrow> validateSingleUrl e u =
          ([], if (if includes_str (hostname p) '':'' then isBlockedIPv6 (hostname p)
                   else isBlockedIP (hostname p))
               then failure ''IP address is not allowed'' else success))
   \<and> (new_URL e ''https://169.254.169.254/latest/meta-data/'' = Some q
        \<and> protocol q = ''https:'' \<and> hostname q = ''169.254.169.254''
      \<longrightarrow> validateImageUrl e (JString ''https://169.254.169.254/latest/meta-data/'') =
            ([], Inr (failure ''IP address is not allowed'')))"
proof (intro conjI impI)
  assume "length u \<le> MAX_URL_LENGTH \<and> new_URL e u = Some p \<and> protocol p = ''https:''
      \<and> \<not> isBlockedHostname (hostname p) \<and> isIPAddress (hostname p)"
  then show "validateSingleUrl e u =
      ([], if (if includes_str (hostname p) '':'' then isBlockedIPv6 (hostname p)
               else isBlockedIP (hostname p))
           then failure ''IP address is not allowed'' else success)"
    by (intro validateSingleUrl_literal) simp_all
next
  let ?u = "''https://169.254.169.254/latest/meta-data/''"
  assume q: "new_URL e ?u = Some q \<and> protocol q = ''https:'' \<and> hostname q = ''169.254.169.254''"
  have "validateSingleUrl e ?u = ([], failure ''IP address is not allowed'')"
    using q validateSingleUrl_literal [of ?u e q]
    by (simp add: MAX_URL_LENGTH_def metadata_address)
  then have "followAndValidateRedirects e ?u 0 {} = ([], Inr (failure ''IP address is not allowed''))"
    using follow_invalid [of 0 ?u "{}" e] by (simp add: failure_def)
  then show "validateImageUrl e (JString ?u) = ([], Inr (failure ''IP address is not allowed''))"
    using validateImageUrl_checked [OF input_metadata(1), of e] by (simp add: input_metadata)
qed

lemma recognised_literal_classified_example:
  "validateSingleUrl env_hosts ''https://8.8.8.8/x.png'' = ([], success)
   \<and> validateSingleUrl env_hosts ''https://169.254.169.254/latest/meta-data/'' =
       ([], failure ''IP address is not allowed'')
   \<and> validateImageUrl env_hosts (JString ''https://169.254.169.254/latest/meta-data/'') =
       ([], Inr (failure ''IP address is not allowed''))"
proof -
  have a: "new_URL env_hosts ''https://8.8.8.8/x.png'' = Some (https_url ''8.8.8.8'' ''/x.png'')"
    and b: "new_URL env_hosts ''https://169.254.169.254/latest/meta-data/'' =
        Some (https_url ''169.254.169.254'' ''/latest/meta-data/'')"
    by (simp_all add: env_hosts_def table_env_def)
  show ?thesis
    using recognised_literal_classified
        [of "''https://8.8.8.8/x.png''" env_hosts "https_url ''8.8.8.8'' ''/x.png''"
          "https_url ''169.254.169.254'' ''/latest/meta-data/''"]
      recognised_literal_classified
        [of "''https://169.254.169.254/latest/meta-data/''" env_hosts
          "https_url ''169.254.169.254'' ''/latest/meta-data/''"
          "https_url ''169.254.169.254'' ''/latest/meta-data/''"]
    by (simp add: a b https_url_def MAX_URL_LENGTH_def public_8888 metadata_address)
qed

text \<open>
  Claim C5: for a hostname that is not an IP literal, the validation asks for all
  addresses of the name, once, and classifies every address returned. A failed lookup
  gives \<^verbatim>\<open>Failed to resolve hostname\<close>; a blocked address anywhere in the answer gives
  \<^verbatim>\<open>Resolved IP address is not allowed\<close>; otherwise the hop is valid.
\<close>

theorem resolved_addresses_all_classified:
  "length u \<le> MAX_URL_LENGTH \<and> new_URL e u = Some p \<and> protocol p = ''https:''
     \<and> \<not> isBlockedHostname (hostname p) \<and> \<not> isIPAddress (hostname p)
   \<longrightarrow> validateSingleUrl e u =
         ([DnsLookupAll (hostname p)],
          case dnsLookup e (hostname p) of
            None \<Rightarrow> failure ''Failed to resolve hostname''
          | Some ips \<Rightarrow>
              if list_ex (\<lambda>ip. if includes_str ip '':'' then isBlockedIPv6 ip else isBlockedIP ip) ips
              then failure ''Resolved IP address is not allowed'' else success)"
  by (simp add: validateSingleUrl_resolved checkResolvedIPs_any split: option.splits)

theorem resolved_addresses_all_classified_witness:
  "dnsLookup env_hosts ''example.com'' = Some [''93.184.216.34'', ''10.0.0.1'']
   \<and> \<not> isBlockedIP ''93.184.216.34'' \<and> isBlockedIP ''10.0.0.1''
   \<and> validateSingleUrl env_hosts ''https://example.com/x.png'' =
       ([DnsLookupAll ''example.com''], failure ''Resolved IP address is not allowed'')"
proof -
  have a: "new_URL env_hosts ''https://example.com/x.png'' = Some (https_url ''example.com'' ''/x.png'')"
    and b: "dnsLookup env_hosts ''example.com'' = Some [''93.184.216.34'', ''10.0.0.1'']"
    by (simp_all add: env_hosts_def table_env_def)
  show ?thesis
    using resolved_addresses_all_classified
        [of "''https://example.com/x.png''" env_hosts "https_url ''example.com'' ''/x.png''"]
    by (simp add: a b https_url_def MAX_URL_LENGTH_def example_com example_addresses)
qed

section \<open>The entry points never raise\<close>

lemma follow_verdict:
  "snd (followAndValidateRedirects e u n V) = Inr r \<Longrightarrow> valid r = (error r = None)"
proof (induction e u n V arbitrary: r rule: followAndValidateRedirects.induct)
  case (1 e urlString redirectCount visitedUrls)
  show ?case
  proof (cases "redirectCount > MAX_REDIRECTS \<or> urlString \<in> visitedUrls
      \<or> \<not> valid (snd (validateSingleUrl e urlString))")
    case True
    with "1.prems" show ?thesis
      using validateSingleUrl_verdict [of e urlString]
      by (subst (asm) followAndValidateRedirects.simps)
        (auto simp: failure_def case_prod_beta split: if_splits)
  next
    case False
    then have small: "redirectCount \<le> MAX_REDIRECTS" and fresh: "urlString \<notin> visitedUrls"
      and ok: "valid (snd (validateSingleUrl e urlString))"
      by auto
    show ?thesis
    proof (cases "redirectCount < MAX_REDIRECTS")
      case False
      with small have "redirectCount = MAX_REDIRECTS" by simp
      from follow_last [OF this fresh ok] "1.prems" show ?thesis
        by (auto simp: success_def)
    next
      case True
      show ?thesis
      proof (cases "snd (checkForRedirect e urlString)")
        case (Inl x)
        from follow_throw [OF True fresh ok Inl] "1.prems" show ?thesis by simp
      next
        case (Inr rr)
        show ?thesis
        proof (cases "redirectTarget rr")
          case None
          from follow_no_redirect [OF True fresh ok Inr None] "1.prems" show ?thesis
            by (auto simp: success_def)
        next
          case (Some target)
          from follow_redirect [OF True fresh ok Inr Some] "1.prems"
          have "snd (followAndValidateRedirects e target (redirectCount + 1)
              (insert urlString visitedUrls)) = Inr r"
            by simp
          moreover have "validateSingleUrl e urlString =
              (fst (validateSingleUrl e urlString), snd (validateSingleUrl e urlString))"
            by simp
          moreover have "checkForRedirect e urlString = (fst (checkForRedirect e urlString), Inr rr)"
            using Inr by (simp add: prod_eq_iff)
          ultimately show ?thesis
            using "1.IH" [of "fst (validateSingleUrl e urlString)" "snd (validateSingleUrl e urlString)"
                "fst (checkForRedirect e urlString)" "Inr rr" rr target r] small fresh ok True Some
            by simp
        qed
      qed
    qed
  qed
qed

lemma validateImageUrl_total:
  "\<exists>t r. validateImageUrl e v = (t, Inr r) \<and> valid r = (error r = None)"
proof (cases v)
  case (JString s)
  show ?thesis
  proof (cases "passesInputChecks s")
    case False
    then show ?thesis
      by (auto simp: JString validateImageUrl_def passesInputChecks_def Let_def failure_def)
  next
    case True
    obtain t res where f: "followAndValidateRedirects e (trim s) 0 {} = (t, res)"
      by (cases "followAndValidateRedirects e (trim s) 0 {}") auto
    show ?thesis
    proof (cases res)
      case (Inl x)
      with validateImageUrl_caught [OF True, of e t x] f show ?thesis
        by (simp add: JString failure_def)
    next
      case (Inr r)
      with follow_verdict [of e "trim s" 0 "{}" r] f validateImageUrl_checked [OF True, of e t r]
      show ?thesis by (simp add: JString)
    qed
  qed
qed (simp_all add: validateImageUrl_def failure_def)

text \<open>
  Claim C7: \<^const>\<open>validateImageUrl\<close> never raises. For every environment and every
  value handed to it, the run ends with a verdict; a verdict is either valid with no
  error message or invalid with one; and when the chain validation raises, whatever the
  exception, the verdict is the fixed \<^verbatim>\<open>Failed to validate image URL\<close>, which carries
  nothing of the exception.
\<close>

theorem validateImageUrl_never_raises:
  "\<exists>t r. validateImageUrl e v = (t, Inr r) \<and> valid r = (error r = None)
     \<and> (\<forall>s x. v = JString s \<and> passesInputChecks s
            \<and> snd (followAndValidateRedirects e (trim s) 0 {}) = Inl x
          \<longrightarrow> r = failure ''Failed to validate image URL'')"
proof -
  from validateImageUrl_total [of e v]
  obtain t r where run: "validateImageUrl e v = (t, Inr r)" and filled: "valid r = (error r = None)"
    by (elim exE conjE)
  show ?thesis
  proof (intro exI conjI allI impI)
    show "validateImageUrl e v = (t, Inr r)" by (fact run)
    show "valid r = (error r = None)" by (fact filled)
    fix s x
    assume a: "v = JString s \<and> passesInputChecks s
      \<and> snd (followAndValidateRedirects e (trim s) 0 {}) = Inl x"
    then have "followAndValidateRedirects e (trim s) 0 {} =
        (fst (followAndValidateRedirects e (trim s) 0 {}), Inl x)"
      by (simp add: prod_eq_iff)
    from validateImageUrl_caught [OF _ this] a run
    show "r = failure ''Failed to validate image URL''" by simp
  qed
qed

lemma input_boom:
  "passesInputChecks ''https://8.8.8.8/boom''" "trim ''https://8.8.8.8/boom'' = ''https://8.8.8.8/boom''"
  by code_simp+

lemma follow_boom:
  "snd (followAndValidateRedirects env_throwing ''https://8.8.8.8/boom'' 0 {}) =
     Inl (Error ''connect ECONNREFUSED 10.1.2.3:443'')"
proof -
  have v: "validateSingleUrl env_throwing ''https://8.8.8.8/boom'' = ([], success)"
    by (simp add: validateSingleUrl_def env_throwing_def table_env_def https_url_def
        MAX_URL_LENGTH_def public_8888)
  have c: "snd (checkForRedirect env_throwing ''https://8.8.8.8/boom'') =
      Inl (Error ''connect ECONNREFUSED 10.1.2.3:443'')"
    by (simp add: checkForRedirect_def env_throwing_def table_env_def https_url_def
        requestOptions_def Let_def)
  show ?thesis
    by (subst follow_throw [where x = "Error ''connect ECONNREFUSED 10.1.2.3:443''"])
      (simp_all add: MAX_REDIRECTS_def v c success_def)
qed

theorem validateImageUrl_never_raises_witness:
  "snd (followAndValidateRedirects env_throwing (trim ''https://8.8.8.8/boom'') 0 {}) =
     Inl (Error ''connect ECONNREFUSED 10.1.2.3:443'')
   \<and> snd (validateImageUrl env_throwing (JString ''https://8.8.8.8/boom'')) =
       Inr (failure ''Failed to validate image URL'')"
proof -
  let ?u = "''https://8.8.8.8/boom''"
  from validateImageUrl_never_raises [of env_throwing "JString ?u"]
  obtain t r where run: "validateImageUrl env_throwing (JString ?u) = (t, Inr r)"
    and caught: "\<forall>s x. JString ?u = JString s \<and> passesInputChecks s
            \<and> snd (followAndValidateRedirects env_throwing (trim s) 0 {}) = Inl x
          \<longrightarrow> r = failure ''Failed to validate image URL''"
    by (elim exE conjE)
  have raised: "snd (followAndValidateRedirects env_throwing (trim ?u) 0 {}) =
      Inl (Error ''connect ECONNREFUSED 10.1.2.3:443'')"
    by (simp only: input_boom follow_boom)
  from caught have "JString ?u = JString ?u \<and> passesInputChecks ?u
            \<and> snd (followAndValidateRedirects env_throwing (trim ?u) 0 {}) =
                Inl (Error ''connect ECONNREFUSED 10.1.2.3:443'')
          \<longrightarrow> r = failure ''Failed to validate image URL''"
    by (rule allE [of _ ?u], elim allE [of _ "Error ''connect ECONNREFUSED 10.1.2.3:443''"])
  with raised input_boom(1) have "r = failure ''Failed to validate image URL''"
    by (simp only: simp_thms)
  with run raised show ?thesis by (simp only: snd_conv simp_thms)
qed

section \<open>Batch validation\<close>

lemma promise_all_fulfilled: "promise_all (map Inr rs) = Some rs"
  by (induction rs) simp_all

text \<open>
  Claim C9: \<^const>\<open>validateImageUrls\<close> is fulfilled, never rejected, and its list of
  verdicts is, position by position and in the order of the input, the verdict that
  \<^const>\<open>validateImageUrl\<close> gives for that URL alone; no URL has a part in the verdict of
  another.
\<close>

theorem validateImageUrls_elementwise:
  "\<exists>rs. validateImageUrls e urls = Some rs
     \<and> map Inr rs = map (\<lambda>url. snd (validateImageUrl e url)) urls"
proof -
  have each: "\<exists>r. snd (validateImageUrl e url) = Inr r" for url
    using validateImageUrl_total [of e url] by auto
  have "map (\<lambda>url. snd (validateImageUrl e url)) urls =
      map Inr (map (\<lambda>url. projr (snd (validateImageUrl e url))) urls)"
  proof (induction urls)
    case Nil
    then show ?case by simp
  next
    case (Cons url urls)
    from each [of url] obtain r where "snd (validateImageUrl e url) = Inr r" by blast
    with Cons show ?case by simp
  qed
  then have "validateImageUrls e urls =
      Some (map (\<lambda>url. projr (snd (validateImageUrl e url))) urls)
    \<and> map Inr (map (\<lambda>url. projr (snd (validateImageUrl e url))) urls) =
      map (\<lambda>url. snd (validateImageUrl e url)) urls"
    by (simp only: validateImageUrls_def promise_all_fulfilled simp_thms)
  then show ?thesis by (rule exI)
qed

section \<open>Redirect loops\<close>

lemma validateImageUrl_verdict:
  "passesInputChecks s \<Longrightarrow> snd (followAndValidateRedirects e (trim s) 0 {}) = Inr r \<Longrightarrow>
   snd (validateImageUrl e (JString s)) = Inr r"
  by (cases "followAndValidateRedirects e (trim s) 0 {}") (simp add: validateImageUrl_checked)

lemma cycle_single:
  "validateSingleUrl env_cycle_of_four ''https://8.8.8.8/a'' = ([], success)"
  "validateSingleUrl env_cycle_of_four ''https://8.8.8.8/b'' = ([], success)"
  "validateSingleUrl env_cycle_of_four ''https://8.8.8.8/c'' = ([], success)"
  "validateSingleUrl env_cycle_of_four ''https://8.8.8.8/d'' = ([], success)"
  by (simp_all add: validateSingleUrl_def env_cycle_of_four_def table_env_def https_url_def
      MAX_URL_LENGTH_def public_8888)

lemma cycle_probe:
  "checkForRedirect env_cycle_of_four ''https://8.8.8.8/a'' =
     ([HttpsRequest (requestOptions (https_url ''8.8.8.8'' ''/a''))],
      Inr \<lparr>hasRedirect = True, redirectUrl = Some ''https://8.8.8.8/b''\<rparr>)"
  "checkForRedirect env_cycle_of_four ''https://8.8.8.8/b'' =
     ([HttpsRequest (requestOptions (https_url ''8.8.8.8'' ''/b''))],
      Inr \<lparr>hasRedirect = True, redirectUrl = Some ''https://8.8.8.8/c''\<rparr>)"
  "checkForRedirect env_cycle_of_four ''https://8.8.8.8/c'' =
     ([HttpsRequest (requestOptions (https_url ''8.8.8.8'' ''/c''))],
      Inr \<lparr>hasRedirect = True, redirectUrl = Some ''https://8.8.8.8/d''\<rparr>)"
  "checkForRedirect env_cycle_of_four ''https://8.8.8.8/d'' =
     ([HttpsRequest (requestOptions (https_url ''8.8.8.8'' ''/d''))],
      Inr \<lparr>hasRedirect = True, redirectUrl = Some ''https://8.8.8.8/a''\<rparr>)"
  by (simp_all add: checkForRedirect_def env_cycle_of_four_def table_env_def https_url_def
      requestOptions_def Let_def)

lemma input_a:
  "passesInputChecks ''https://8.8.8.8/a''" "trim ''https://8.8.8.8/a'' = ''https://8.8.8.8/a''"
  by code_simp+

text \<open>
  Claim C8, as stated, promises \<^verbatim>\<open>Redirect loop detected\<close> for every chain that
  returns to a URL it has visited. Here four pages redirect in a circle, each of them
  valid, so the chain that starts at the first page returns to it with the fourth
  redirect; the verdict is valid, because the chain validation stops at the hop with
  index \<^const>\<open>MAX_REDIRECTS\<close> before the return is seen.
\<close>

theorem cycle_of_four_not_detected:
  "redirect_path env_cycle_of_four
     [''https://8.8.8.8/a'', ''https://8.8.8.8/b'', ''https://8.8.8.8/c'', ''https://8.8.8.8/d'']
     ''https://8.8.8.8/a''
   \<and> snd (validateImageUrl env_cycle_of_four (JString ''https://8.8.8.8/a'')) =
       Inr \<lparr>valid = True, error = None\<rparr>"
proof -
  have path: "redirect_path env_cycle_of_four
     [''https://8.8.8.8/a'', ''https://8.8.8.8/b'', ''https://8.8.8.8/c'', ''https://8.8.8.8/d'']
     ''https://8.8.8.8/a''"
    by (simp add: cycle_single cycle_probe redirectTarget_def success_def)
  have "redirect_path env_cycle_of_four
     [''https://8.8.8.8/a'', ''https://8.8.8.8/b'', ''https://8.8.8.8/c''] ''https://8.8.8.8/d''"
    by (simp add: cycle_single cycle_probe redirectTarget_def success_def)
  from follow_along_path [OF _ this, of "{}" 0]
  have "snd (followAndValidateRedirects env_cycle_of_four ''https://8.8.8.8/a'' 0 {}) =
      snd (followAndValidateRedirects env_cycle_of_four ''https://8.8.8.8/d'' (Suc (Suc (Suc 0)))
        {''https://8.8.8.8/a'', ''https://8.8.8.8/b'', ''https://8.8.8.8/c''})"
    by (simp add: MAX_REDIRECTS_def)
  also have "\<dots> = Inr success"
    by (subst follow_last) (simp_all add: MAX_REDIRECTS_def cycle_single success_def)
  finally have "snd (followAndValidateRedirects env_cycle_of_four (trim ''https://8.8.8.8/a'') 0 {}) =
      Inr success"
    by (simp only: input_a(2))
  from validateImageUrl_verdict [OF input_a(1) this]
  have "snd (validateImageUrl env_cycle_of_four (JString ''https://8.8.8.8/a'')) = Inr success" .
  with path show ?thesis by (simp add: success_def)
qed

text \<open>
  Claim C8, amended: when the chain returns to a visited URL within the first
  \<^const>\<open>MAX_REDIRECTS\<close> redirects, every hop before the return passing the single-URL
  validation, the verdict of \<^const>\<open>validateImageUrl\<close> is
  \<^verbatim>\<open>Redirect loop detected\<close>. The URL of a hop is in the visited set before the hop is
  probed, so a page that redirects to itself is caught at the next hop.
\<close>

theorem redirect_loop_detected:
  "us \<noteq> [] \<and> distinct us \<and> length us \<le> MAX_REDIRECTS \<and> redirect_path e us final
     \<and> final \<in> set us \<and> passesInputChecks s \<and> trim s = hd us
   \<longrightarrow> snd (validateImageUrl e (JString s)) = Inr (failure ''Redirect loop detected'')"
proof
  assume a: "us \<noteq> [] \<and> distinct us \<and> length us \<le> MAX_REDIRECTS \<and> redirect_path e us final
     \<and> final \<in> set us \<and> passesInputChecks s \<and> trim s = hd us"
  then have "snd (followAndValidateRedirects e (hd us) 0 {}) =
      snd (followAndValidateRedirects e final (0 + length us) ({} \<union> set us))"
    by (intro follow_along_path) simp_all
  also have "\<dots> = Inr (failure ''Redirect loop detected'')"
    using a by (subst follow_loop) simp_all
  finally have "snd (followAndValidateRedirects e (trim s) 0 {}) =
      Inr (failure ''Redirect loop detected'')"
    using a by simp
  from validateImageUrl_verdict [OF _ this] a show
    "snd (validateImageUrl e (JString s)) = Inr (failure ''Redirect loop detected'')"
    by simp
qed

lemma self_single:
  "validateSingleUrl env_self_redirect ''https://8.8.8.8/a'' = ([], success)"
  by (simp add: validateSingleUrl_def env_self_redirect_def table_env_def https_url_def
      MAX_URL_LENGTH_def public_8888)

lemma self_probe:
  "checkForRedirect env_self_redirect ''https://8.8.8.8/a'' =
     ([HttpsRequest (requestOptions (https_url ''8.8.8.8'' ''/a''))],
      Inr \<lparr>hasRedirect = True, redirectUrl = Some ''https://8.8.8.8/a''\<rparr>)"
  by (simp add: checkForRedirect_def env_self_redirect_def table_env_def https_url_def
      requestOptions_def Let_def)

theorem redirect_loop_detected_witness:
  "redirect_path env_self_redirect [''https://8.8.8.8/a''] ''https://8.8.8.8/a''
   \<and> snd (validateImageUrl env_self_redirect (JString ''https://8.8.8.8/a'')) =
       Inr (failure ''Redirect loop detected'')"
  using redirect_loop_detected
      [of "[''https://8.8.8.8/a'']" env_self_redirect "''https://8.8.8.8/a''" "''https://8.8.8.8/a''"]
  by (simp add: self_single self_probe redirectTarget_def success_def MAX_REDIRECTS_def input_a)

section \<open>What the redirect probe reports\<close>

text \<open>
  Claim C6, as stated, counts as a redirect every response with a status from 300 to
  399 and a \<^verbatim>\<open>Location\<close> header whose value resolves against the probed URL. Here the
  response has status 302 and a \<^verbatim>\<open>Location\<close> header with the empty value, which
  resolves to the probed URL itself; the probe reports no redirect, because the guard
  \<^verbatim>\<open>&& res.headers.location\<close> is false for the empty string.
\<close>

theorem empty_location_is_no_redirect:
  "new_URL env_probe ''https://8.8.8.8/empty'' = Some (https_url ''8.8.8.8'' ''/empty'')
   \<and> https_request env_probe (requestOptions (https_url ''8.8.8.8'' ''/empty'')) =
       Response (Some 302) (Some [])
   \<and> new_URL_href env_probe [] ''https://8.8.8.8/empty'' = Some ''https://8.8.8.8/empty''
   \<and> checkForRedirect env_probe ''https://8.8.8.8/empty'' =
       ([HttpsRequest (requestOptions (https_url ''8.8.8.8'' ''/empty''))],
        Inr \<lparr>hasRedirect = False, redirectUrl = None\<rparr>)"
  by (simp add: checkForRedirect_def env_probe_def table_env_def https_url_def
      requestOptions_def Let_def noRedirect_def)

lemma checkForRedirect_response:
  "new_URL e u = Some p \<Longrightarrow> https_request e (requestOptions p) = Response status location \<Longrightarrow>
   checkForRedirect e u =
     ([HttpsRequest (requestOptions p)],
      Inr (if 300 \<le> (case status of None \<Rightarrow> 0 | Some n \<Rightarrow> n)
              \<and> (case status of None \<Rightarrow> 0 | Some n \<Rightarrow> n) < 400
              \<and> (\<exists>l. location = Some l \<and> l \<noteq> [] \<and> new_URL_href e l u \<noteq> None)
           then \<lparr>hasRedirect = True, redirectUrl = new_URL_href e (the location) u\<rparr>
           else noRedirect))"
  by (cases location) (auto simp: checkForRedirect_def Let_def noRedirect_def split: option.splits)

text \<open>
  Claim C6, amended: the probe reports a redirect exactly when the response has a status
  from 300 to 399 and a \<^verbatim>\<open>Location\<close> header that is not empty and whose value
  resolves against the probed URL; the target is then the resolved URL. Any other
  response, the \<^verbatim>\<open>error\<close> event and the \<^verbatim>\<open>timeout\<close> event give no redirect, and
  on the timeout the request is destroyed. When the request call itself throws, the
  probe raises what was thrown.
\<close>

theorem probe_reports_redirect:
  "new_URL e u = Some p \<longrightarrow>
     (case https_request e (requestOptions p) of
        Response status location \<Rightarrow>
          (\<exists>r. checkForRedirect e u = ([HttpsRequest (requestOptions p)], Inr r)
             \<and> hasRedirect r =
                 (300 \<le> (case status of None \<Rightarrow> 0 | Some n \<Rightarrow> n)
                  \<and> (case status of None \<Rightarrow> 0 | Some n \<Rightarrow> n) < 400
                  \<and> (\<exists>l. location = Some l \<and> l \<noteq> [] \<and> new_URL_href e l u \<noteq> None))
             \<and> redirectUrl r = (if hasRedirect r then new_URL_href e (the location) u else None))
      | ErrorEvent \<Rightarrow>
          checkForRedirect e u = ([HttpsRequest (requestOptions p)], Inr noRedirect)
      | TimeoutEvent \<Rightarrow>
          checkForRedirect e u = ([HttpsRequest (requestOptions p), RequestDestroy], Inr noRedirect)
      | RequestThrows x \<Rightarrow>
          checkForRedirect e u = ([HttpsRequest (requestOptions p)], Inl x))"
proof
  assume p: "new_URL e u = Some p"
  show "case https_request e (requestOptions p) of
        Response status location \<Rightarrow>
          (\<exists>r. checkForRedirect e u = ([HttpsRequest (requestOptions p)], Inr r)
             \<and> hasRedirect r =
                 (300 \<le> (case status of None \<Rightarrow> 0 | Some n \<Rightarrow> n)
                  \<and> (case status of None \<Rightarrow> 0 | Some n \<Rightarrow> n) < 400
                  \<and> (\<exists>l. location = Some l \<and> l \<noteq> [] \<and> new_URL_href e l u \<noteq> None))
             \<and> redirectUrl r = (if hasRedirect r then new_URL_href e (the location) u else None))
      | ErrorEvent \<Rightarrow>
          checkForRedirect e u = ([HttpsRequest (requestOptions p)], Inr noRedirect)
      | TimeoutEvent \<Rightarrow>
          checkForRedirect e u = ([HttpsRequest (requestOptions p), RequestDestroy], Inr noRedirect)
      | RequestThrows x \<Rightarrow>
          checkForRedirect e u = ([HttpsRequest (requestOptions p)], Inl x)"
  proof (cases "https_request e (requestOptions p)")
    case (Response status location)
    let ?r = "if 300 \<le> (case status of None \<Rightarrow> 0 | Some n \<Rightarrow> n)
              \<and> (case status of None \<Rightarrow> 0 | Some n \<Rightarrow> n) < 400
              \<and> (\<exists>l. location = Some l \<and> l \<noteq> [] \<and> new_URL_href e l u \<noteq> None)
           then \<lparr>hasRedirect = True, redirectUrl = new_URL_href e (the location) u\<rparr>
           else noRedirect"
    have "checkForRedirect e u = ([HttpsRequest (requestOptions p)], Inr ?r)"
      by (rule checkForRedirect_response [OF p Response])
    moreover have "hasRedirect ?r =
                 (300 \<le> (case status of None \<Rightarrow> 0 | Some n \<Rightarrow> n)
                  \<and> (case status of None \<Rightarrow> 0 | Some n \<Rightarrow> n) < 400
                  \<and> (\<exists>l. location = Some l \<and> l \<noteq> [] \<and> new_URL_href e l u \<noteq> None))"
      by (simp add: noRedirect_def)
    moreover have "redirectUrl ?r = (if hasRedirect ?r then new_URL_href e (the location) u else None)"
      by (simp add: noRedirect_def)
    ultimately show ?thesis
      unfolding Response head_outcome.case by (intro exI conjI)
  next
    case ErrorEvent
    with p show ?thesis by (simp add: checkForRedirect_def Let_def)
  next
    case TimeoutEvent
    with p show ?thesis by (simp add: checkForRedirect_def Let_def)
  next
    case (RequestThrows x)
    with p show ?thesis by (simp add: checkForRedirect_def Let_def)
  qed
qed

theorem probe_reports_redirect_witness:
  "(\<exists>r. checkForRedirect env_probe ''https://8.8.8.8/moved'' =
          ([HttpsRequest (requestOptions (https_url ''8.8.8.8'' ''/moved''))], Inr r)
        \<and> hasRedirect r \<and> redirectUrl r = Some ''https://8.8.8.8/new'')
   \<and> checkForRedirect env_probe ''https://8.8.8.8/slow'' =
       ([HttpsRequest (requestOptions (https_url ''8.8.8.8'' ''/slow'')), RequestDestroy],
        Inr noRedirect)"
proof -
  have moved: "new_URL env_probe ''https://8.8.8.8/moved'' = Some (https_url ''8.8.8.8'' ''/moved'')"
    "https_request env_probe (requestOptions (https_url ''8.8.8.8'' ''/moved'')) =
       Response (Some 302) (Some ''/new'')"
    "new_URL_href env_probe ''/new'' ''https://8.8.8.8/moved'' = Some ''https://8.8.8.8/new''"
    and slow: "new_URL env_probe ''https://8.8.8.8/slow'' = Some (https_url ''8.8.8.8'' ''/slow'')"
    "https_request env_probe (requestOptions (https_url ''8.8.8.8'' ''/slow'')) = TimeoutEvent"
    by (simp_all add: env_probe_def table_env_def https_url_def requestOptions_def)
  from probe_reports_redirect [of env_probe "''https://8.8.8.8/moved''" "https_url ''8.8.8.8'' ''/moved''"]
  have "\<exists>r. checkForRedirect env_probe ''https://8.8.8.8/moved'' =
          ([HttpsRequest (requestOptions (https_url ''8.8.8.8'' ''/moved''))], Inr r)
        \<and> hasRedirect r \<and> redirectUrl r = Some ''https://8.8.8.8/new''"
    by (simp add: moved cong: conj_cong)
  moreover
  from probe_reports_redirect [of env_probe "''https://8.8.8.8/slow''" "https_url ''8.8.8.8'' ''/slow''"]
  have "checkForRedirect env_probe ''https://8.8.8.8/slow'' =
       ([HttpsRequest (requestOptions (https_url ''8.8.8.8'' ''/slow'')), RequestDestroy],
        Inr noRedirect)"
    by (simp add: slow)
  ultimately show ?thesis by (rule conjI)
qed

section \<open>Public addresses in the upper half of the address space\<close>

text \<open>
  Claim C2: \<^const>\<open>isBlockedIP\<close> is to hold exactly for the dotted quads in the listed
  ranges (and for strings that do not parse). The address 142.250.80.46 lies in none of
  the listed ranges, yet the classifier blocks it: \<^verbatim>\<open>parts[0] << 24\<close> is a signed
  32-bit shift, so for a first octet of 128 or more \<^const>\<open>ipToNumber\<close> is negative, and
  a negative number is taken for the mark of an invalid address. The two addresses named
  by the claim, with first octets below 128, are not blocked.
\<close>

theorem public_address_blocked:
  "quad_text 142 250 80 46 = ''142.250.80.46''
   \<and> \<not> in_listed_ranges 142 250 80 46
   \<and> ipToNumber ''142.250.80.46'' = - 1896198098
   \<and> isBlockedIP ''142.250.80.46''
   \<and> \<not> isBlockedIP ''8.8.8.8'' \<and> \<not> isBlockedIP ''93.184.216.34''"
proof -
  have "quad_text 142 250 80 46 = ''142.250.80.46''"
    by (simp add: quad_text_def dec_text.simps digit_char_def)
  moreover have "\<not> in_listed_ranges 142 250 80 46"
    by (simp add: in_listed_ranges_def listed_ranges_def ipv4_number_def)
  moreover have "ipToNumber ''142.250.80.46'' = - 1896198098" by code_simp
  moreover have "isBlockedIP ''142.250.80.46''" by code_simp
  moreover have "\<not> isBlockedIP ''8.8.8.8''" by (fact public_8888(3))
  moreover have "\<not> isBlockedIP ''93.184.216.34''" by (fact example_addresses(2))
  ultimately show ?thesis by (simp only: simp_thms)
qed

theorem public_address_blocked_witness:
  "isBlockedIP (quad_text 142 250 80 46) \<and> \<not> in_listed_ranges 142 250 80 46"
  using public_address_blocked by (simp only: simp_thms)

section \<open>Strings\<close>

lemma code_unit_eqD: "code_unit c = n \<Longrightarrow> code_unit d = n \<Longrightarrow> c = d"
  unfolding code_unit_def by (rule of_char_eqI [where ?'a = nat]) simp

lemma is_digit_lower: "is_digit c \<Longrightarrow> lower_char c = c"
  by (auto simp: is_digit_def lower_char_def)

lemma is_digit_not_sep: "is_digit c \<Longrightarrow> c \<noteq> CHR '':'' \<and> c \<noteq> CHR ''.''"
  by (auto simp: is_digit_def code_unit_def)

lemma lower_dot: "lower_char CHR ''.'' = CHR ''.''"
  by (simp add: lower_char_def code_unit_def)

lemma split_on_not_Nil: "split_on c s \<noteq> []"
  by (induction s) (auto simp: split_on.simps split: list.splits)

lemma split_on_no_sep: "c \<notin> set s \<Longrightarrow> split_on c s = [s]"
  by (induction s) (auto simp: split_on.simps split: list.splits)

lemma split_on_append: "c \<notin> set xs \<Longrightarrow> split_on c (xs @ c # ys) = xs # split_on c ys"
  by (induction xs) (auto simp: split_on.simps split: list.splits)

lemma split_on_covers:
  "x \<in> set s \<Longrightarrow> x = c \<or> (\<exists>p \<in> set (split_on c s). x \<in> set p)"
proof (induction s)
  case Nil
  then show ?case by simp
next
  case (Cons y s)
  obtain p ps where ps: "split_on c s = p # ps"
    using split_on_not_Nil [of c s] by (cases "split_on c s") auto
  show ?case
  proof (cases "y = c")
    case True
    with Cons show ?thesis by (auto simp: split_on.simps)
  next
    case False
    with Cons ps show ?thesis by (auto simp: split_on.simps)
  qed
qed

text \<open>A dotted quad in text is made of digits and dots.\<close>

lemma dotted_quad_chars:
  assumes "dotted_quad_text q" and "x \<in> set q"
  shows "is_digit x \<or> x = CHR ''.''"
proof -
  from split_on_covers [OF assms(2), of "CHR ''.''"]
  consider "x = CHR ''.''" | p where "p \<in> set (split_on CHR ''.'' q)" "x \<in> set p"
    by blast
  then show ?thesis
  proof cases
    case 1
    then show ?thesis by simp
  next
    case 2
    with assms(1) have "digit_group p"
      by (simp add: dotted_quad_text_def Let_def list_all_iff)
    with 2 show ?thesis by (simp add: digit_group_def list_all_iff)
  qed
qed

lemma dotted_quad_no_colon: "dotted_quad_text q \<Longrightarrow> CHR '':'' \<notin> set q"
  using dotted_quad_chars [of q "CHR '':''"] is_digit_not_sep [of "CHR '':''"] by auto

lemma dotted_quad_lower: "dotted_quad_text q \<Longrightarrow> toLowerCase q = q"
  unfolding toLowerCase_def
  by (rule map_idI) (use dotted_quad_chars is_digit_lower lower_dot in fastforce)

lemma startsWith_includes: "startsWith s p \<Longrightarrow> includes_str s p"
  by (cases s) (auto simp: includes_str.simps startsWith_def)

lemma includes_str_intro: "includes_str (pre @ p @ post) p"
proof (induction pre)
  case Nil
  have "startsWith (p @ post) p" by (simp add: startsWith_def)
  then show ?case by (simp add: startsWith_includes)
next
  case (Cons a pre)
  then show ?case by (simp add: includes_str.simps)
qed

lemma take_drop_split: "s = take i s @ take k (drop i s) @ drop (i + k) s"
proof -
  have "take k (drop i s) @ drop k (drop i s) = drop i s"
    by (rule append_take_drop_id)
  then have "take i s @ take k (drop i s) @ drop k (drop i s) = s"
    by (simp only: append_take_drop_id)
  then show ?thesis by (simp add: add.commute)
qed

text \<open>The text after the last colon of a string is determined by the string.\<close>

lemma after_last_sep:
  assumes "a @ x # q = b @ x # r" and "x \<notin> set q" and "x \<notin> set r"
  shows "q = r"
proof -
  have "rev q @ x # rev a = rev r @ x # rev b"
    using arg_cong [OF assms(1), of rev] by simp
  moreover have "takeWhile (\<lambda>c. c \<noteq> x) (rev q @ x # rev a) = rev q"
    using assms(2) by (auto simp: takeWhile_tail)
  moreover have "takeWhile (\<lambda>c. c \<noteq> x) (rev r @ x # rev b) = rev r"
    using assms(3) by (auto simp: takeWhile_tail)
  ultimately have "rev q = rev r" by simp
  then show ?thesis by simp
qed

section \<open>The match of an IPv4-mapped address\<close>

lemma match_mapped_ipv4_Some:
  assumes "match_mapped_ipv4 s = Some q"
  shows "\<exists>pre. s = pre @ '':ffff:'' @ q \<and> dotted_quad_text q"
proof -
  from assms obtain i where
    i: "find (\<lambda>i. take 6 (drop i s) = '':ffff:'' \<and> dotted_quad_text (drop (i + 6) s))
          [0..<length s] = Some i"
    and q: "q = drop (i + 6) s"
    by (auto simp: match_mapped_ipv4_def split: option.splits)
  from i have t: "take 6 (drop i s) = '':ffff:''" and d: "dotted_quad_text (drop (i + 6) s)"
    by (auto simp: find_Some_iff)
  have "s = take i s @ take 6 (drop i s) @ drop (i + 6) s"
    by (rule take_drop_split)
  with t have "s = take i s @ '':ffff:'' @ q"
    by (simp only: q)
  with d q show ?thesis by blast
qed

lemma match_mapped_ipv4_intro:
  assumes "dotted_quad_text q"
  shows "match_mapped_ipv4 (pre @ '':ffff:'' @ q) = Some q"
proof -
  define s where "s = pre @ '':ffff:'' @ q"
  let ?P = "\<lambda>i. take 6 (drop i s) = '':ffff:'' \<and> dotted_quad_text (drop (i + 6) s)"
  have "?P (length pre)" using assms by (simp add: s_def)
  moreover have "length pre \<in> set [0..<length s]" by (simp add: s_def)
  ultimately have "find ?P [0..<length s] \<noteq> None"
    unfolding find_None_iff by blast
  then obtain j where j: "find ?P [0..<length s] = Some j" by auto
  then have t: "take 6 (drop j s) = '':ffff:''" and d: "dotted_quad_text (drop (j + 6) s)"
    by (auto simp: find_Some_iff)
  have "take j s @ (take 6 (drop j s) @ drop (j + 6) s) = s"
    by (rule take_drop_split [symmetric])
  then have "take j s @ ('':ffff:'' @ drop (j + 6) s) = s"
    by (simp only: t)
  then have e2: "(take j s @ '':ffff'') @ CHR '':'' # drop (j + 6) s = s"
    by simp
  have e1: "(pre @ '':ffff'') @ CHR '':'' # q = s"
    by (simp add: s_def)
  from after_last_sep [OF trans [OF e1 e2 [symmetric]]] assms d have "q = drop (j + 6) s"
    by (simp add: dotted_quad_no_colon)
  with j have "match_mapped_ipv4 s = Some q"
    by (simp add: match_mapped_ipv4_def)
  then show ?thesis by (simp only: s_def)
qed

section \<open>What the IPv6 classifier blocks\<close>

lemma isBlockedIPv6_iff:
  "isBlockedIPv6 ip =
     (toLowerCase ip = ''::1'' \<or> toLowerCase ip = ''0:0:0:0:0:0:0:1''
      \<or> toLowerCase ip = ''::'' \<or> toLowerCase ip = ''0:0:0:0:0:0:0:0''
      \<or> startsWith (toLowerCase ip) ''fe8'' \<or> startsWith (toLowerCase ip) ''fe9''
      \<or> startsWith (toLowerCase ip) ''fea'' \<or> startsWith (toLowerCase ip) ''feb''
      \<or> startsWith (toLowerCase ip) ''fc'' \<or> startsWith (toLowerCase ip) ''fd''
      \<or> startsWith (toLowerCase ip) ''ff''
      \<or> (\<exists>pre q. toLowerCase ip = pre @ '':ffff:'' @ q \<and> dotted_quad_text q \<and> isBlockedIP q))"
proof -
  let ?n = "toLowerCase ip"
  have mapped: "(includes_str ?n '':ffff:''
        \<and> (case match_mapped_ipv4 ?n of None \<Rightarrow> False | Some ipv4 \<Rightarrow> isBlockedIP ipv4))
      = (\<exists>pre q. ?n = pre @ '':ffff:'' @ q \<and> dotted_quad_text q \<and> isBlockedIP q)"
    (is "?L = ?R")
  proof
    assume ?L
    then obtain q where "match_mapped_ipv4 ?n = Some q" "isBlockedIP q"
      by (auto split: option.splits)
    with match_mapped_ipv4_Some [of ?n q] show ?R by blast
  next
    assume ?R
    then obtain pre q where n: "?n = pre @ '':ffff:'' @ q" and q: "dotted_quad_text q" "isBlockedIP q"
      by blast
    from match_mapped_ipv4_intro [OF q(1), of pre] n have "match_mapped_ipv4 ?n = Some q"
      by simp
    moreover from includes_str_intro [of pre "'':ffff:''" q] n have "includes_str ?n '':ffff:''"
      by simp
    ultimately show ?L using q(2) by simp
  qed
  have fe80: "startsWith ?n ''fe8''" if "startsWith ?n ''fe80:''"
  proof -
    have "take (length ''fe8'') ?n = take (length ''fe8'') (take (length ''fe80:'') ?n)"
      by (simp add: min_def)
    also have "take (length ''fe80:'') ?n = ''fe80:''"
      using that by (simp only: startsWith_def)
    finally show ?thesis by (simp add: startsWith_def)
  qed
  have chain: "(if a then True else if b then True else if s0 \<or> s then True
        else if c then True else if f then True else if m then True else False)
      = (a \<or> b \<or> s \<or> c \<or> f \<or> m)" if "s0 \<Longrightarrow> s" for a b s0 s c f m
    using that by auto
  show ?thesis
    unfolding isBlockedIPv6_def Let_def mapped
    by (subst chain) (use fe80 in simp_all)
qed

lemma mapped_loopback:
  "toLowerCase ''::ffff:127.0.0.1'' = ''::ffff:127.0.0.1''" "dotted_quad_text ''127.0.0.1''"
  "isBlockedIP ''127.0.0.1''"
  by code_simp+

lemma hex_mapped_loopback: "\<not> isBlockedIPv6 ''::ffff:7f00:1''"
  by code_simp

text \<open>
  Claim C10: inside \<^const>\<open>isBlockedIPv6\<close> the re-check of an IPv4-mapped address fires
  only when \<^verbatim>\<open>:ffff:\<close> is followed, up to the end of the string, by a dotted quad in
  decimal. The classifier holds exactly when one of its textual rules holds or the
  lower-cased address ends in \<^verbatim>\<open>:ffff:\<close> and a dotted quad that \<^const>\<open>isBlockedIP\<close>
  blocks; the mapped loopback address with a hexadecimal payload,
  \<^verbatim>\<open>::ffff:7f00:1\<close>, is not blocked.
\<close>

theorem mapped_recheck_needs_dotted_quad:
  "isBlockedIPv6 ip =
     (toLowerCase ip = ''::1'' \<or> toLowerCase ip = ''0:0:0:0:0:0:0:1''
      \<or> toLowerCase ip = ''::'' \<or> toLowerCase ip = ''0:0:0:0:0:0:0:0''
      \<or> startsWith (toLowerCase ip) ''fe8'' \<or> startsWith (toLowerCase ip) ''fe9''
      \<or> startsWith (toLowerCase ip) ''fea'' \<or> startsWith (toLowerCase ip) ''feb''
      \<or> startsWith (toLowerCase ip) ''fc'' \<or> startsWith (toLowerCase ip) ''fd''
      \<or> startsWith (toLowerCase ip) ''ff''
      \<or> (\<exists>pre q. toLowerCase ip = pre @ '':ffff:'' @ q \<and> dotted_quad_text q \<and> isBlockedIP q))
   \<and> \<not> isBlockedIPv6 ''::ffff:7f00:1''"
  using isBlockedIPv6_iff [of ip] hex_mapped_loopback by (simp only: simp_thms)

theorem mapped_recheck_needs_dotted_quad_witness:
  "isBlockedIPv6 ''::ffff:127.0.0.1'' \<and> \<not> isBlockedIPv6 ''::ffff:7f00:1''"
proof -
  have "toLowerCase ''::ffff:127.0.0.1'' = '':'' @ '':ffff:'' @ ''127.0.0.1''
      \<and> dotted_quad_text ''127.0.0.1'' \<and> isBlockedIP ''127.0.0.1''"
    by (simp add: mapped_loopback)
  then have "\<exists>pre q. toLowerCase ''::ffff:127.0.0.1'' = pre @ '':ffff:'' @ q
      \<and> dotted_quad_text q \<and> isBlockedIP q"
    by (intro exI)
  with mapped_recheck_needs_dotted_quad [of "''::ffff:127.0.0.1''"] show ?thesis
    by (simp only: simp_thms)
qed

section \<open>Hexadecimal groups\<close>

lemma hex_chars: "is_hex c \<Longrightarrow> c \<in> set ''0123456789abcdefABCDEF''"
proof -
  assume "is_hex c"
  then have "code_unit c = 48 \<or> code_unit c = 49 \<or> code_unit c = 50 \<or> code_unit c = 51
      \<or> code_unit c = 52 \<or> code_unit c = 53 \<or> code_unit c = 54 \<or> code_unit c = 55
      \<or> code_unit c = 56 \<or> code_unit c = 57
      \<or> code_unit c = 97 \<or> code_unit c = 98 \<or> code_unit c = 99 \<or> code_unit c = 100
      \<or> code_unit c = 101 \<or> code_unit c = 102
      \<or> code_unit c = 65 \<or> code_unit c = 66 \<or> code_unit c = 67 \<or> code_unit c = 68
      \<or> code_unit c = 69 \<or> code_unit c = 70"
    unfolding is_hex_def is_digit_def by arith
  then have "\<exists>d \<in> set ''0123456789abcdefABCDEF''. code_unit d = code_unit c"
    by (elim disjE) (simp_all add: code_unit_def)
  then show ?thesis
    using code_unit_eqD by blast
qed

lemma lower_hex_table:
  "list_all (\<lambda>c. lower_char c = ''0123456789abcdef'' ! hex_digit_val c \<and> hex_digit_val c < 16)
     ''0123456789abcdefABCDEF''"
  by code_simp

lemma lower_hex: "is_hex c \<Longrightarrow> lower_char c = ''0123456789abcdef'' ! hex_digit_val c"
  using hex_chars [of c] lower_hex_table by (simp only: list_all_iff)

lemma hex_digit_val_bound: "is_hex c \<Longrightarrow> hex_digit_val c < 16"
  using hex_chars [of c] lower_hex_table by (simp only: list_all_iff)

lemma hex_value_snoc: "hex_value (g @ [c]) = 16 * hex_value g + hex_digit_val c"
  by (simp add: hex_value_def)

lemma hex_value_bound: "list_all is_hex g \<Longrightarrow> hex_value g < 16 ^ length g"
proof (induction g rule: rev_induct)
  case Nil
  then show ?case by (simp add: hex_value_def)
next
  case (snoc c g)
  then have "hex_value g < 16 ^ length g" and "hex_digit_val c < 16"
    by (simp_all add: hex_digit_val_bound)
  then have "16 * hex_value g + hex_digit_val c < 16 * 16 ^ length g"
    by arith
  then show ?case by (simp add: hex_value_snoc)
qed

text \<open>
  A first group of value 4096 or more has four digits, and the lower-cased text begins
  with the lower-case digits of the group.
\<close>

lemma first_group_digits:
  assumes "length (first_group s) \<le> 4" and "list_all is_hex (first_group s)"
    and "4096 \<le> hex_value (first_group s)"
  shows "\<exists>v1 v2 v3 v4 rest. v1 < 16 \<and> v2 < 16 \<and> v3 < 16 \<and> v4 < 16
           \<and> hex_value (first_group s) = ((v1 * 16 + v2) * 16 + v3) * 16 + v4
           \<and> toLowerCase s = ''0123456789abcdef'' ! v1 # ''0123456789abcdef'' ! v2
               # ''0123456789abcdef'' ! v3 # ''0123456789abcdef'' ! v4 # rest"
proof -
  let ?g = "first_group s"
  have "hex_value ?g < 16 ^ length ?g"
    using assms(2) by (rule hex_value_bound)
  moreover have "(16::nat) ^ length ?g \<le> 16 ^ 3" if "length ?g \<le> 3"
    using that by (intro power_increasing) simp_all
  ultimately have "\<not> length ?g \<le> 3"
    using assms(3) by fastforce
  with assms(1) have "length ?g = 4" by simp
  then obtain c1 c2 c3 c4 where g: "?g = [c1, c2, c3, c4]"
    by (auto simp: length_Suc_conv numeral_eq_Suc)
  have s: "s = ?g @ dropWhile (\<lambda>c. c \<noteq> CHR '':'') s"
    by (simp add: first_group_def)
  from assms(2) g have hex: "is_hex c1" "is_hex c2" "is_hex c3" "is_hex c4"
    by simp_all
  have "toLowerCase s = toLowerCase ?g @ toLowerCase (dropWhile (\<lambda>c. c \<noteq> CHR '':'') s)"
    by (subst s) (simp only: toLowerCase_def map_append)
  then have "toLowerCase s = ''0123456789abcdef'' ! hex_digit_val c1
      # ''0123456789abcdef'' ! hex_digit_val c2 # ''0123456789abcdef'' ! hex_digit_val c3
      # ''0123456789abcdef'' ! hex_digit_val c4
      # toLowerCase (dropWhile (\<lambda>c. c \<noteq> CHR '':'') s)"
    by (simp add: g toLowerCase_def lower_hex hex)
  moreover have "hex_value ?g = ((hex_digit_val c1 * 16 + hex_digit_val c2) * 16
      + hex_digit_val c3) * 16 + hex_digit_val c4"
    by (simp add: g hex_value_def)
  ultimately show ?thesis
    using hex_digit_val_bound [OF hex(1)] hex_digit_val_bound [OF hex(2)]
      hex_digit_val_bound [OF hex(3)] hex_digit_val_bound [OF hex(4)]
    by blast
qed

section \<open>The IPv4 classifier on dotted quads\<close>

lemma digit_table:
  "list_all (\<lambda>d. is_digit (digit_char d) \<and> digit_val (digit_char d) = d) [0..<10]"
  by code_simp

lemma digit_char_digit: "d < 10 \<Longrightarrow> is_digit (digit_char d) \<and> digit_val (digit_char d) = d"
  using digit_table by (simp add: list_all_iff)

lemma is_digit_plain:
  "is_digit c \<Longrightarrow> \<not> is_js_space c \<and> c \<noteq> CHR ''-'' \<and> c \<noteq> CHR ''+'' \<and> c \<noteq> CHR ''.''"
  by (auto simp: is_digit_def is_js_space_def code_unit_def)

lemma dec_value_snoc: "dec_value (ds @ [c]) = 10 * dec_value ds + digit_val c"
  by (simp add: dec_value_def)

lemma dec_text_digits: "list_all is_digit (dec_text n) \<and> dec_text n \<noteq> []"
proof (induction n rule: dec_text.induct)
  case (1 n)
  show ?case
  proof (cases "n < 10")
    case True
    then show ?thesis by (subst (1 2) dec_text.simps) (simp add: digit_char_digit)
  next
    case False
    with 1 show ?thesis by (subst (1 2) dec_text.simps) (simp add: digit_char_digit)
  qed
qed

lemma dec_value_dec_text: "dec_value (dec_text n) = n"
proof (induction n rule: dec_text.induct)
  case (1 n)
  show ?case
  proof (cases "n < 10")
    case True
    then show ?thesis
      by (subst dec_text.simps) (simp add: dec_value_def digit_char_digit)
  next
    case False
    with 1 have "dec_value (dec_text (n div 10)) = n div 10" by simp
    with False show ?thesis
      by (subst dec_text.simps) (simp add: dec_value_snoc digit_char_digit)
  qed
qed

lemma length_dec_text: "n < 1000 \<Longrightarrow> length (dec_text n) \<le> 3"
  by (subst dec_text.simps, subst dec_text.simps, subst dec_text.simps) simp

lemma parseInt10_digits:
  assumes "ds \<noteq> []" and "list_all is_digit ds"
  shows "parseInt10 ds = Some (int (dec_value ds))"
proof -
  from assms have h: "is_digit (hd ds)" by (cases ds) simp_all
  then have dw: "dropWhile is_js_space ds = ds"
    using is_digit_plain [of "hd ds"] by (simp add: dropWhile_eq_self_iff)
  have tw: "takeWhile is_digit ds = ds"
    using assms(2) by (simp add: list_all_iff)
  show ?thesis
    using assms(1) is_digit_plain [OF h] by (simp add: parseInt10_def Let_def dw tw)
qed

lemma parseInt10_dec_text: "parseInt10 (dec_text n) = Some (int n)"
  using dec_text_digits [of n] by (simp add: parseInt10_digits dec_value_dec_text)

lemma dec_text_no_dot: "CHR ''.'' \<notin> set (dec_text n)"
  using dec_text_digits [of n] is_digit_plain by (auto simp: list_all_iff)

lemma split_quad_text:
  "split_on CHR ''.'' (quad_text a b c d) = [dec_text a, dec_text b, dec_text c, dec_text d]"
proof -
  have "quad_text a b c d =
      dec_text a @ CHR ''.'' # (dec_text b @ CHR ''.'' # (dec_text c @ CHR ''.'' # dec_text d))"
    by (simp add: quad_text_def)
  then show ?thesis
    by (simp only: split_on_append [OF dec_text_no_dot] split_on_no_sep [OF dec_text_no_dot])
qed

lemma dotted_quad_text_quad:
  assumes "a < 256" "b < 256" "c < 256" "d < 256"
  shows "dotted_quad_text (quad_text a b c d)"
proof -
  have "digit_group (dec_text n)" if "n < 256" for n
    using that dec_text_digits [of n] length_dec_text [of n]
    by (cases "dec_text n") (simp_all add: digit_group_def)
  with assms show ?thesis
    by (simp add: dotted_quad_text_def split_quad_text)
qed

lemma ipToNumber_quad_text:
  "ipToNumber (quad_text a b c d) =
     shl32 (int a) 24 + shl32 (int b) 16 + shl32 (int c) 8 + int d"
  by (simp add: ipToNumber_def split_quad_text parseInt10_dec_text)

lemma shl32_octet:
  assumes "x < 256"
  shows "shl32 (int x) 8 = int x * 256" "shl32 (int x) 16 = int x * 65536"
    "shl32 (int x) 24 = (if x < 128 then int x * 16777216 else int x * 16777216 - 4294967296)"
proof -
  have x: "toInt32 (int x) = int x"
    using assms by (simp add: toInt32_def)
  show "shl32 (int x) 8 = int x * 256"
    using assms by (simp add: shl32_def x toInt32_def)
  show "shl32 (int x) 16 = int x * 65536"
    using assms by (simp add: shl32_def x toInt32_def)
  show "shl32 (int x) 24 = (if x < 128 then int x * 16777216 else int x * 16777216 - 4294967296)"
    using assms by (simp add: shl32_def x toInt32_def)
qed

text \<open>The number of a dotted quad: the unsigned value below 128.0.0.0, a negative number from there on.\<close>

lemma ipToNumber_octets:
  assumes "a < 256" "b < 256" "c < 256" "d < 256"
  shows "ipToNumber (quad_text a b c d) =
     (if a < 128 then int (ipv4_number a b c d) else int (ipv4_number a b c d) - 4294967296)"
  using assms by (simp add: ipToNumber_quad_text shl32_octet ipv4_number_def)

lemma ipToNumber_negative:
  assumes "a < 256" "b < 256" "c < 256" "d < 256"
  shows "(ipToNumber (quad_text a b c d) < 0) = (128 \<le> a)"
proof -
  have "ipv4_number a b c d < 4294967296"
    using assms by (simp add: ipv4_number_def)
  then show ?thesis
    using assms by (auto simp: ipToNumber_octets)
qed

lemma range_numbers:
  "map (\<lambda>range. (ipToNumber (fst range), ipToNumber (snd range))) BLOCKED_IP_RANGES =
     [(2130706432, 2147483647), (167772160, 184549375), (- 1408237568, - 1407188993),
      (- 1062731776, - 1062666241), (- 1442971648, - 1442906113),
      (- 1442928130, - 1442928130), (0, 16777215), (1681915904, 1686110207),
      (- 1073741824, - 1073741569), (- 1073741312, - 1073741057),
      (- 969710592, - 969710337), (- 889163520, - 889163265), (- 971898880, - 971767809),
      (- 536870912, - 268435457), (- 268435456, - 1)]"
  by code_simp

lemma table_scan:
  "list_ex (\<lambda>range. x \<ge> ipToNumber (fst range) \<and> x \<le> ipToNumber (snd range)) BLOCKED_IP_RANGES =
     list_ex (\<lambda>(lo, hi). x \<ge> lo \<and> x \<le> hi)
       (map (\<lambda>range. (ipToNumber (fst range), ipToNumber (snd range))) BLOCKED_IP_RANGES)"
  by (simp add: list_ex_iff)

lemma div_eq_bounds:
  "0 < q \<Longrightarrow> (v div q = m) = (m * q \<le> v \<and> v < Suc m * q)" for v q m :: nat
  using less_eq_div_iff_mult_less_eq [of q m v] div_less_iff_less_mult [of q v "Suc m"]
  by auto

lemma isBlockedIP_low:
  assumes "a < 128" "b < 256" "c < 256" "d < 256"
  shows "isBlockedIP (quad_text a b c d) = in_listed_ranges a b c d"
proof -
  define v where "v = ipv4_number a b c d"
  have small: "v < 2147483648"
    using assms by (simp add: v_def ipv4_number_def)
  have n: "ipToNumber (quad_text a b c d) = int v"
    using assms by (simp add: ipToNumber_octets v_def)
  have "isBlockedIP (quad_text a b c d) =
      (2130706432 \<le> v \<and> v \<le> 2147483647 \<or> 167772160 \<le> v \<and> v \<le> 184549375
       \<or> v \<le> 16777215 \<or> 1681915904 \<le> v \<and> v \<le> 1686110207)"
    unfolding isBlockedIP_def Let_def n table_scan range_numbers by auto
  moreover have "in_listed_ranges a b c d =
      (2130706432 \<le> v \<and> v \<le> 2147483647 \<or> 167772160 \<le> v \<and> v \<le> 184549375
       \<or> v \<le> 16777215 \<or> 1681915904 \<le> v \<and> v \<le> 1686110207)"
    unfolding in_listed_ranges_def listed_ranges_def v_def [symmetric]
    using small by (simp add: ipv4_number_def div_eq_bounds) linarith
  ultimately show ?thesis by simp
qed

lemma isBlockedIP_octets:
  assumes "a < 256" "b < 256" "c < 256" "d < 256"
  shows "isBlockedIP (quad_text a b c d) = (128 \<le> a \<or> in_listed_ranges a b c d)"
proof (cases "a < 128")
  case True
  with assms show ?thesis by (simp add: isBlockedIP_low)
next
  case False
  with assms have "ipToNumber (quad_text a b c d) < 0"
    by (simp add: ipToNumber_negative)
  with False show ?thesis by (simp add: isBlockedIP_def)
qed

section \<open>The blocked IPv6 families\<close>

lemma link_local_blocked:
  assumes "in_prefix16 s 0xfe80 10"
  shows "isBlockedIPv6 s"
proof -
  from assms have len: "length (first_group s) \<le> 4" and hex: "list_all is_hex (first_group s)"
    and v: "hex_value (first_group s) div 64 = 1018"
    by (simp_all add: in_prefix16_def)
  define V where "V = hex_value (first_group s)"
  from v have "V div 64 = 1018" by (simp add: V_def)
  then have range: "65152 \<le> V" "V < 65216"
    by linarith+
  then have "4096 \<le> hex_value (first_group s)" by (simp add: V_def)
  from first_group_digits [OF len hex this] obtain v1 v2 v3 v4 rest where
    b: "v1 < 16" "v2 < 16" "v3 < 16" "v4 < 16"
    and e: "V = ((v1 * 16 + v2) * 16 + v3) * 16 + v4"
    and t: "toLowerCase s = ''0123456789abcdef'' ! v1 # ''0123456789abcdef'' ! v2
               # ''0123456789abcdef'' ! v3 # ''0123456789abcdef'' ! v4 # rest"
    unfolding V_def by blast
  from e have e': "V = 4096 * v1 + 256 * v2 + 16 * v3 + v4" by simp
  from range e' b have v1: "v1 = 15" by linarith
  from range e' b v1 have v2: "v2 = 14" by linarith
  from range e' b v1 v2 have "8 \<le> v3" "v3 \<le> 11" by linarith+
  then have "v3 = 8 \<or> v3 = 9 \<or> v3 = 10 \<or> v3 = 11" by linarith
  then have "startsWith (toLowerCase s) ''fe8'' \<or> startsWith (toLowerCase s) ''fe9''
      \<or> startsWith (toLowerCase s) ''fea'' \<or> startsWith (toLowerCase s) ''feb''"
    by (elim disjE) (simp_all add: t v1 v2 startsWith_def)
  then show ?thesis
    by (subst isBlockedIPv6_iff) (elim disjE; simp)
qed

lemma unique_local_blocked:
  assumes "in_prefix16 s 0xfc00 7"
  shows "isBlockedIPv6 s"
proof -
  from assms have len: "length (first_group s) \<le> 4" and hex: "list_all is_hex (first_group s)"
    and v: "hex_value (first_group s) div 512 = 126"
    by (simp_all add: in_prefix16_def)
  define V where "V = hex_value (first_group s)"
  from v have "V div 512 = 126" by (simp add: V_def)
  then have range: "64512 \<le> V" "V < 65024"
    by linarith+
  then have "4096 \<le> hex_value (first_group s)" by (simp add: V_def)
  from first_group_digits [OF len hex this] obtain v1 v2 v3 v4 rest where
    b: "v1 < 16" "v2 < 16" "v3 < 16" "v4 < 16"
    and e: "V = ((v1 * 16 + v2) * 16 + v3) * 16 + v4"
    and t: "toLowerCase s = ''0123456789abcdef'' ! v1 # ''0123456789abcdef'' ! v2
               # ''0123456789abcdef'' ! v3 # ''0123456789abcdef'' ! v4 # rest"
    unfolding V_def by blast
  from e have e': "V = 4096 * v1 + 256 * v2 + 16 * v3 + v4" by simp
  from range e' b have v1: "v1 = 15" by linarith
  from range e' b v1 have "12 \<le> v2" "v2 \<le> 13" by linarith+
  then have "v2 = 12 \<or> v2 = 13" by linarith
  then have "startsWith (toLowerCase s) ''fc'' \<or> startsWith (toLowerCase s) ''fd''"
    by (elim disjE) (simp_all add: t v1 startsWith_def)
  then show ?thesis
    by (subst isBlockedIPv6_iff) (elim disjE; simp)
qed

lemma multicast_blocked:
  assumes "in_prefix16 s 0xff00 8"
  shows "isBlockedIPv6 s"
proof -
  from assms have len: "length (first_group s) \<le> 4" and hex: "list_all is_hex (first_group s)"
    and v: "hex_value (first_group s) div 256 = 255"
    by (simp_all add: in_prefix16_def)
  define V where "V = hex_value (first_group s)"
  from v have "V div 256 = 255" by (simp add: V_def)
  then have range: "65280 \<le> V"
    by linarith
  then have "4096 \<le> hex_value (first_group s)" by (simp add: V_def)
  from first_group_digits [OF len hex this] obtain v1 v2 v3 v4 rest where
    b: "v1 < 16" "v2 < 16" "v3 < 16" "v4 < 16"
    and e: "V = ((v1 * 16 + v2) * 16 + v3) * 16 + v4"
    and t: "toLowerCase s = ''0123456789abcdef'' ! v1 # ''0123456789abcdef'' ! v2
               # ''0123456789abcdef'' ! v3 # ''0123456789abcdef'' ! v4 # rest"
    unfolding V_def by blast
  from e have e': "V = 4096 * v1 + 256 * v2 + 16 * v3 + v4" by simp
  from range e' b have v1: "v1 = 15" by linarith
  from range e' b v1 have v2: "v2 = 15" by linarith
  have "startsWith (toLowerCase s) ''ff''"
    by (simp add: t v1 v2 startsWith_def)
  then show ?thesis
    by (subst isBlockedIPv6_iff) simp
qed

lemma mapped_blocked:
  assumes "toLowerCase ip = pre @ '':ffff:'' @ q" and "dotted_quad_text q" and "isBlockedIP q"
  shows "isBlockedIPv6 ip"
proof -
  from assms have "\<exists>pre q'. toLowerCase ip = pre @ '':ffff:'' @ q'
      \<and> dotted_quad_text q' \<and> isBlockedIP q'"
    by blast
  then show ?thesis
    by (subst isBlockedIPv6_iff) (simp only: simp_thms)
qed

lemma mapped_prefix_lower: "toLowerCase ''::ffff:'' = ''::ffff:''"
  by code_simp

lemma mapped_text_lower:
  "dotted_quad_text q \<Longrightarrow> toLowerCase (''::ffff:'' @ q) = ''::ffff:'' @ q"
proof -
  assume q: "dotted_quad_text q"
  have "toLowerCase (''::ffff:'' @ q) = toLowerCase ''::ffff:'' @ toLowerCase q"
    by (simp only: toLowerCase_def map_append)
  then show ?thesis
    by (simp only: mapped_prefix_lower dotted_quad_lower [OF q])
qed

lemma mapped_listed_blocked:
  assumes "a < 256" "b < 256" "c < 256" "d < 256" and "in_listed_ranges a b c d"
  shows "isBlockedIPv6 (''::ffff:'' @ quad_text a b c d)"
proof -
  have q: "dotted_quad_text (quad_text a b c d)"
    using assms(1-4) by (rule dotted_quad_text_quad)
  have "isBlockedIP (quad_text a b c d)"
    using assms by (simp add: isBlockedIP_octets)
  moreover have "toLowerCase (''::ffff:'' @ quad_text a b c d) =
      '':'' @ '':ffff:'' @ quad_text a b c d"
    using mapped_text_lower [OF q] by simp
  ultimately show ?thesis
    using q by (intro mapped_blocked)
qed

lemma ipv6_literals:
  "isBlockedIPv6 ''::1''" "isBlockedIPv6 ''::''" "isBlockedIPv6 ''::ffff:127.0.0.1''"
  "\<not> isBlockedIPv6 ''2001:4860:4860::8888''"
  by code_simp+

text \<open>
  Claim C4: \<^const>\<open>isBlockedIPv6\<close> holds for the loopback address \<^verbatim>\<open>::1\<close>, for the
  unspecified address \<^verbatim>\<open>::\<close>, for every address in text whose first group lies in
  \<^verbatim>\<open>fe80::/10\<close> (link-local), in \<^verbatim>\<open>fc00::/7\<close> (unique local) or in \<^verbatim>\<open>ff00::/8\<close>
  (multicast), in upper or lower case, and for every IPv4-mapped address
  \<^verbatim>\<open>::ffff:a.b.c.d\<close> whose dotted quad the IPv4 classifier blocks: every address that
  ends, in lower case, in \<^verbatim>\<open>:ffff:\<close> and a dotted quad that \<^const>\<open>isBlockedIP\<close>
  blocks, hence every quad of octets in one of the listed ranges, among them
  \<^verbatim>\<open>::ffff:127.0.0.1\<close>. It does not hold for \<^verbatim>\<open>2001:4860:4860::8888\<close>.
\<close>

theorem ipv6_blocked_families:
  "isBlockedIPv6 ''::1'' \<and> isBlockedIPv6 ''::''
   \<and> (in_prefix16 s 0xfe80 10 \<longrightarrow> isBlockedIPv6 s)
   \<and> (in_prefix16 s 0xfc00 7 \<longrightarrow> isBlockedIPv6 s)
   \<and> (in_prefix16 s 0xff00 8 \<longrightarrow> isBlockedIPv6 s)
   \<and> (toLowerCase ip = pre @ '':ffff:'' @ q \<and> dotted_quad_text q \<and> isBlockedIP q
        \<longrightarrow> isBlockedIPv6 ip)
   \<and> (a < 256 \<and> b < 256 \<and> c < 256 \<and> d < 256 \<and> in_listed_ranges a b c d
        \<longrightarrow> isBlockedIPv6 (''::ffff:'' @ quad_text a b c d))
   \<and> isBlockedIPv6 ''::ffff:127.0.0.1''
   \<and> \<not> isBlockedIPv6 ''2001:4860:4860::8888''"
proof (intro conjI impI)
  show "isBlockedIPv6 ''::1''" by (fact ipv6_literals(1))
  show "isBlockedIPv6 ''::''" by (fact ipv6_literals(2))
  show "isBlockedIPv6 s" if "in_prefix16 s 0xfe80 10" using that by (rule link_local_blocked)
  show "isBlockedIPv6 s" if "in_prefix16 s 0xfc00 7" using that by (rule unique_local_blocked)
  show "isBlockedIPv6 s" if "in_prefix16 s 0xff00 8" using that by (rule multicast_blocked)
  show "isBlockedIPv6 ip"
    if "toLowerCase ip = pre @ '':ffff:'' @ q \<and> dotted_quad_text q \<and> isBlockedIP q"
    using that by (elim conjE) (rule mapped_blocked)
  show "isBlockedIPv6 (''::ffff:'' @ quad_text a b c d)"
    if "a < 256 \<and> b < 256 \<and> c < 256 \<and> d < 256 \<and> in_listed_ranges a b c d"
    using that by (elim conjE) (rule mapped_listed_blocked)
  show "isBlockedIPv6 ''::ffff:127.0.0.1''" by (fact ipv6_literals(3))
  show "\<not> isBlockedIPv6 ''2001:4860:4860::8888''" by (fact ipv6_literals(4))
qed

lemma family_examples:
  "in_prefix16 ''FE80::1'' 0xfe80 10" "in_prefix16 ''febf:1::2'' 0xfe80 10"
  "in_prefix16 ''fc00::1'' 0xfc00 7" "in_prefix16 ''fd12:3456::1'' 0xfc00 7"
  "in_prefix16 ''ff02::1'' 0xff00 8"
  by (simp_all add: in_prefix16_def first_group_def hex_value_def hex_digit_val_def
      is_hex_def is_digit_def code_unit_def)

lemma family_examples_mapped:
  "toLowerCase ''::FFFF:10.1.2.3'' = '':'' @ '':ffff:'' @ ''10.1.2.3''"
  "dotted_quad_text ''10.1.2.3''" "isBlockedIP ''10.1.2.3''"
  by code_simp+

lemma family_examples_listed:
  "in_listed_ranges 192 168 1 1" "quad_text 192 168 1 1 = ''192.168.1.1''"
  by (simp_all add: in_listed_ranges_def listed_ranges_def ipv4_number_def
      quad_text_def dec_text.simps digit_char_def)

theorem ipv6_blocked_families_witness:
  "isBlockedIPv6 ''FE80::1'' \<and> isBlockedIPv6 ''febf:1::2'' \<and> isBlockedIPv6 ''fc00::1''
   \<and> isBlockedIPv6 ''fd12:3456::1'' \<and> isBlockedIPv6 ''ff02::1''
   \<and> isBlockedIPv6 ''::FFFF:10.1.2.3''
   \<and> isBlockedIPv6 (''::ffff:'' @ ''192.168.1.1'')"
proof -
  note inst = ipv6_blocked_families [where ip = "''::FFFF:10.1.2.3''" and pre = "'':''"
      and q = "''10.1.2.3''" and a = 192 and b = 168 and c = 1 and d = 1]
  have "isBlockedIPv6 ''FE80::1''"
    using inst [of "''FE80::1''"] family_examples(1) by (simp only: simp_thms)
  moreover have "isBlockedIPv6 ''febf:1::2''"
    using inst [of "''febf:1::2''"] family_examples(2) by (simp only: simp_thms)
  moreover have "isBlockedIPv6 ''fc00::1''"
    using inst [of "''fc00::1''"] family_examples(3) by (simp only: simp_thms)
  moreover have "isBlockedIPv6 ''fd12:3456::1''"
    using inst [of "''fd12:3456::1''"] family_examples(4) by (simp only: simp_thms)
  moreover have "isBlockedIPv6 ''ff02::1''"
    using inst [of "''ff02::1''"] family_examples(5) by (simp only: simp_thms)
  moreover have "isBlockedIPv6 ''::FFFF:10.1.2.3''"
    using inst [of "''ff02::1''"] family_examples_mapped by (simp only: simp_thms)
  moreover have "isBlockedIPv6 (''::ffff:'' @ ''192.168.1.1'')"
    using inst [of "''ff02::1''"] family_examples_listed by simp
  ultimately show ?thesis by (simp only: simp_thms)
qed

section \<open>IPv6 literals in URLs\<close>

text \<open>A string that \<^const>\<open>isIPAddress\<close> recognises holds hexadecimal digits, dots and colons only.\<close>

lemma hex_or_colon_chars:
  "hexcolon_plus s \<Longrightarrow> x \<in> set s \<Longrightarrow> is_hex x \<or> x = CHR '':''"
  by (simp add: hexcolon_plus_def list_all_iff)

lemma ipv6Pattern_chars:
  assumes "ipv6Pattern s" and "x \<in> set s"
  shows "is_hex x \<or> x = CHR '':''"
proof -
  from split_on_covers [OF assms(2), of "CHR '':''"]
  consider "x = CHR '':''" | p where "p \<in> set (split_on CHR '':'' s)" "x \<in> set p"
    by blast
  then show ?thesis
  proof cases
    case 1
    then show ?thesis by simp
  next
    case 2
    with assms(1) have "hex_group p"
      by (simp add: ipv6Pattern_def Let_def list_all_iff)
    with 2 show ?thesis by (simp add: hex_group_def list_all_iff)
  qed
qed

lemma ipv6ShorthandPattern_chars:
  assumes "ipv6ShorthandPattern s" and "x \<in> set s"
  shows "is_hex x \<or> x = CHR '':''"
proof -
  from assms(1) consider "s = ''::''"
    | "startsWith s ''::''" "hexcolon_plus (drop 2 s)"
    | "endsWith s ''::''" "hexcolon_plus (take (length s - 2) s)"
    | i where "hexcolon_plus (take i s)" "take 2 (drop i s) = ''::''" "hexcolon_plus (drop (i + 2) s)"
    by (auto simp: ipv6ShorthandPattern_def list_ex_iff)
  then show ?thesis
  proof cases
    case 1
    with assms(2) show ?thesis by simp
  next
    case 2
    have "s = take 2 s @ drop 2 s" by simp
    with assms(2) have "x \<in> set (take 2 s) \<or> x \<in> set (drop 2 s)"
      by (metis Un_iff set_append)
    moreover have "take 2 s = ''::''" using 2(1) by (simp add: startsWith_def numeral_2_eq_2)
    ultimately show ?thesis using hex_or_colon_chars [OF 2(2)] by auto
  next
    case 3
    have "s = take (length s - 2) s @ drop (length s - 2) s" by simp
    with assms(2) have "x \<in> set (take (length s - 2) s) \<or> x \<in> set (drop (length s - 2) s)"
      by (metis Un_iff set_append)
    moreover have "drop (length s - 2) s = ''::''" using 3(1) by (simp add: endsWith_def numeral_2_eq_2)
    ultimately show ?thesis using hex_or_colon_chars [OF 3(2)] by auto
  next
    case 4
    have "s = take i s @ take 2 (drop i s) @ drop (i + 2) s" by (rule take_drop_split)
    with assms(2) have "x \<in> set (take i s) \<or> x \<in> set (take 2 (drop i s)) \<or> x \<in> set (drop (i + 2) s)"
      by (metis Un_iff set_append)
    then show ?thesis
      using hex_or_colon_chars [OF 4(1)] hex_or_colon_chars [OF 4(3)] 4(2) by auto
  qed
qed

lemma isIPAddress_chars:
  assumes "isIPAddress h" and "x \<in> set h"
  shows "is_hex x \<or> x = CHR '':'' \<or> x = CHR ''.''"
proof -
  from assms(1) consider "dotted_quad_text h" | "ipv6Pattern h" | "ipv6ShorthandPattern h"
    by (auto simp: isIPAddress_def split: if_splits)
  then show ?thesis
  proof cases
    case 1
    from dotted_quad_chars [OF this assms(2)] show ?thesis by (auto simp: is_hex_def)
  next
    case 2
    from ipv6Pattern_chars [OF this assms(2)] show ?thesis by auto
  next
    case 3
    from ipv6ShorthandPattern_chars [OF this assms(2)] show ?thesis by auto
  qed
qed

text \<open>So a host in square brackets is never recognised, and is handed to the resolver.\<close>

lemma bracket_not_recognised: "CHR ''['' \<in> set h \<Longrightarrow> \<not> isIPAddress h"
proof
  assume "CHR ''['' \<in> set h" and "isIPAddress h"
  from isIPAddress_chars [OF this(2) this(1)] show False
    by (simp add: is_hex_def is_digit_def code_unit_def)
qed

lemma bracketed_host_resolved:
  "length u \<le> MAX_URL_LENGTH \<Longrightarrow> new_URL e u = Some p \<Longrightarrow> protocol p = ''https:'' \<Longrightarrow>
   \<not> isBlockedHostname (hostname p) \<Longrightarrow> CHR ''['' \<in> set (hostname p) \<Longrightarrow>
   validateSingleUrl e u =
     ([DnsLookupAll (hostname p)],
      case dnsLookup e (hostname p) of
        None \<Rightarrow> failure ''Failed to resolve hostname''
      | Some ips \<Rightarrow> checkResolvedIPs ips)"
  by (simp add: validateSingleUrl_resolved bracket_not_recognised)

lemma bracketed_hosts:
  "\<not> isBlockedHostname ''[2001:4860:4860::8888]''" "\<not> isBlockedHostname ''[::1]''"
  "isIPAddress ''2001:4860:4860::8888''" "\<not> isBlockedIPv6 ''2001:4860:4860::8888''"
  "isIPAddress ''::1''" "isBlockedIPv6 ''::1''"
  by code_simp+

text \<open>
  Claim C3: a URL whose hostname is an IP literal, IPv4 or IPv6, is to be classified
  directly, without a DNS lookup: rejected with \<^verbatim>\<open>IP address is not allowed\<close> when the
  address is blocked, valid otherwise. For an IPv6 literal the hostname that the parsed
  URL reports stands in square brackets, and \<^const>\<open>isIPAddress\<close> recognises no string
  with a bracket. So the public literal \<^verbatim>\<open>2001:4860:4860::8888\<close>, which the classifier
  does not block, and the loopback literal \<^verbatim>\<open>::1\<close>, which it blocks, are both handed
  to the resolver under their bracketed names, and both URLs are rejected with
  \<^verbatim>\<open>Failed to resolve hostname\<close>. The branch of \<^verbatim>\<open>validateSingleUrl\<close> that calls
  \<^const>\<open>isBlockedIPv6\<close> on the hostname is never taken for such a URL.
\<close>

theorem ipv6_literal_url_resolved:
  "new_URL env_ipv6_literal ''https://[2001:4860:4860::8888]/x.png'' =
     Some (https_url ''[2001:4860:4860::8888]'' ''/x.png'')
   \<and> isIPAddress ''2001:4860:4860::8888'' \<and> \<not> isBlockedIPv6 ''2001:4860:4860::8888''
   \<and> \<not> isIPAddress ''[2001:4860:4860::8888]''
   \<and> validateSingleUrl env_ipv6_literal ''https://[2001:4860:4860::8888]/x.png'' =
       ([DnsLookupAll ''[2001:4860:4860::8888]''], failure ''Failed to resolve hostname'')
   \<and> new_URL env_ipv6_literal ''https://[::1]/x.png'' = Some (https_url ''[::1]'' ''/x.png'')
   \<and> isIPAddress ''::1'' \<and> isBlockedIPv6 ''::1'' \<and> \<not> isIPAddress ''[::1]''
   \<and> validateSingleUrl env_ipv6_literal ''https://[::1]/x.png'' =
       ([DnsLookupAll ''[::1]''], failure ''Failed to resolve hostname'')"
proof -
  have a: "new_URL env_ipv6_literal ''https://[2001:4860:4860::8888]/x.png'' =
      Some (https_url ''[2001:4860:4860::8888]'' ''/x.png'')"
    and b: "new_URL env_ipv6_literal ''https://[::1]/x.png'' = Some (https_url ''[::1]'' ''/x.png'')"
    and n: "dnsLookup env_ipv6_literal ''[2001:4860:4860::8888]'' = None"
      "dnsLookup env_ipv6_literal ''[::1]'' = None"
    by (simp_all add: env_ipv6_literal_def table_env_def)
  have c: "\<not> isIPAddress ''[2001:4860:4860::8888]''" "\<not> isIPAddress ''[::1]''"
    by (rule bracket_not_recognised, simp)+
  have "validateSingleUrl env_ipv6_literal ''https://[2001:4860:4860::8888]/x.png'' =
       ([DnsLookupAll ''[2001:4860:4860::8888]''], failure ''Failed to resolve hostname'')"
    using bracketed_host_resolved [OF _ a]
    by (simp add: https_url_def MAX_URL_LENGTH_def bracketed_hosts n)
  moreover have "validateSingleUrl env_ipv6_literal ''https://[::1]/x.png'' =
       ([DnsLookupAll ''[::1]''], failure ''Failed to resolve hostname'')"
    using bracketed_host_resolved [OF _ b]
    by (simp add: https_url_def MAX_URL_LENGTH_def bracketed_hosts n)
  ultimately show ?thesis
    using a b c bracketed_hosts by (simp only: simp_thms)
qed

theorem ipv6_literal_url_resolved_witness:
  "fst (validateSingleUrl env_ipv6_literal ''https://[2001:4860:4860::8888]/x.png'') =
     [DnsLookupAll ''[2001:4860:4860::8888]'']
   \<and> \<not> valid (snd (validateSingleUrl env_ipv6_literal ''https://[2001:4860:4860::8888]/x.png''))"
  using ipv6_literal_url_resolved by (simp add: failure_def)

end
